theory Spec2Isabelle
  imports Main "HOL-Library.Word" "HOL-Library.Sublist"
begin

unbundle bit_operations_syntax

section \<open>Python values\<close>

text \<open>
  The script \<^verbatim>\<open>convergent/analysis/data/anonymize.py\<close> reads a CSV file into a pandas
  DataFrame, replaces the
  cells of the columns \<^verbatim>\<open>workerid\<close> and \<^verbatim>\<open>hitId\<close> by
  \<^verbatim>\<open>hashlib.sha256(value.encode()).hexdigest()\<close>, writes the frame to a second CSV
  file and prints a message.

  A Python \<^verbatim>\<open>str\<close> is a sequence of Unicode code points, so it is modelled as a list of
  natural numbers (\<open>length\<close> counts code points, as Python's \<^verbatim>\<open>len\<close> does). A code point
  is a number below \<open>0x110000\<close>; the surrogates \<open>0xD800 .. 0xDFFF\<close> are code points
  that a \<^verbatim>\<open>str\<close> may hold but that have no UTF-8 encoding.
\<close>

type_synonym byte = "8 word"
type_synonym u32 = "32 word"
type_synonym pystr = "nat list"

text \<open>String literals of the program text, read as Python strings.\<close>

definition py :: "string \<Rightarrow> pystr" where
  "py s = map of_char s"

text \<open>
  The values a cell of a DataFrame read by \<^verbatim>\<open>pandas.read_csv\<close> can hold: a string (object
  column), an integer (int64 column), a float (float64 column, given by its IEEE 754 bits;
  a missing cell is the float NaN) or a boolean.
\<close>

datatype pyval = PyStr pystr | PyInt int | PyFloat "64 word" | PyBool bool

definition NaN :: pyval where
  "NaN = PyFloat 0x7FF8000000000000"

datatype pyerror =
    AttributeError
  | UnicodeEncodeError
  | KeyError
  | FileNotFoundError

section \<open>\<^verbatim>\<open>str.encode()\<close>: UTF-8, strict\<close>

text \<open>
  \<^verbatim>\<open>value.encode()\<close> with no arguments encodes to UTF-8 with the error handler
  \<^verbatim>\<open>strict\<close>: one to four bytes per code point, and \<^verbatim>\<open>UnicodeEncodeError\<close>
  (``surrogates not allowed'') at a surrogate. The branches follow CPython's encoder.
\<close>

definition is_surrogate :: "nat \<Rightarrow> bool" where
  "is_surrogate c \<longleftrightarrow> 0xD800 \<le> c \<and> c \<le> 0xDFFF"

definition utf8_char :: "nat \<Rightarrow> pyerror + byte list" where
  "utf8_char c =
     (if c < 0x80 then Inr [of_nat c]
      else if c < 0x800 then
        Inr [of_nat (0xC0 + c div 64), of_nat (0x80 + c mod 64)]
      else if is_surrogate c then Inl UnicodeEncodeError
      else if c < 0x10000 then
        Inr [of_nat (0xE0 + c div 4096), of_nat (0x80 + c div 64 mod 64),
             of_nat (0x80 + c mod 64)]
      else
        Inr [of_nat (0xF0 + c div 262144), of_nat (0x80 + c div 4096 mod 64),
             of_nat (0x80 + c div 64 mod 64), of_nat (0x80 + c mod 64)])"

fun utf8_encode :: "pystr \<Rightarrow> pyerror + byte list" where
  "utf8_encode [] = Inr []"
| "utf8_encode (c # cs) =
     (case utf8_char c of
        Inl e \<Rightarrow> Inl e
      | Inr bs \<Rightarrow>
          (case utf8_encode cs of
             Inl e \<Rightarrow> Inl e
           | Inr rest \<Rightarrow> Inr (bs @ rest)))"

text \<open>
  Only \<^verbatim>\<open>str\<close> has the method: on an int, a float (NaN included) or a bool the attribute
  lookup \<^verbatim>\<open>value.encode\<close> raises \<^verbatim>\<open>AttributeError\<close>.
\<close>

fun encode :: "pyval \<Rightarrow> pyerror + byte list" where
  "encode (PyStr s) = utf8_encode s"
| "encode (PyInt i) = Inl AttributeError"
| "encode (PyFloat x) = Inl AttributeError"
| "encode (PyBool b) = Inl AttributeError"

section \<open>\<^verbatim>\<open>hashlib.sha256\<close>: SHA-256 as in FIPS 180-4\<close>

text \<open>Section 4.1.2 of the standard: the six logical functions on 32-bit words.\<close>

definition rotr :: "nat \<Rightarrow> u32 \<Rightarrow> u32" where
  "rotr n x = drop_bit n x OR push_bit (32 - n) x"

definition Ch :: "u32 \<Rightarrow> u32 \<Rightarrow> u32 \<Rightarrow> u32" where
  "Ch x y z = (x AND y) XOR (NOT x AND z)"

definition Maj :: "u32 \<Rightarrow> u32 \<Rightarrow> u32 \<Rightarrow> u32" where
  "Maj x y z = (x AND y) XOR (x AND z) XOR (y AND z)"

definition bsig0 :: "u32 \<Rightarrow> u32" where
  "bsig0 x = rotr 2 x XOR rotr 13 x XOR rotr 22 x"

definition bsig1 :: "u32 \<Rightarrow> u32" where
  "bsig1 x = rotr 6 x XOR rotr 11 x XOR rotr 25 x"

definition ssig0 :: "u32 \<Rightarrow> u32" where
  "ssig0 x = rotr 7 x XOR rotr 18 x XOR drop_bit 3 x"

definition ssig1 :: "u32 \<Rightarrow> u32" where
  "ssig1 x = rotr 17 x XOR rotr 19 x XOR drop_bit 10 x"

text \<open>Section 4.2.2: the sixty-four round constants. Section 5.3.3: the initial hash value.\<close>

definition K256 :: "u32 list" where
  "K256 =
   [0x428A2F98, 0x71374491, 0xB5C0FBCF, 0xE9B5DBA5, 0x3956C25B, 0x59F111F1, 0x923F82A4, 0xAB1C5ED5,
    0xD807AA98, 0x12835B01, 0x243185BE, 0x550C7DC3, 0x72BE5D74, 0x80DEB1FE, 0x9BDC06A7, 0xC19BF174,
    0xE49B69C1, 0xEFBE4786, 0x0FC19DC6, 0x240CA1CC, 0x2DE92C6F, 0x4A7484AA, 0x5CB0A9DC, 0x76F988DA,
    0x983E5152, 0xA831C66D, 0xB00327C8, 0xBF597FC7, 0xC6E00BF3, 0xD5A79147, 0x06CA6351, 0x14292967,
    0x27B70A85, 0x2E1B2138, 0x4D2C6DFC, 0x53380D13, 0x650A7354, 0x766A0ABB, 0x81C2C92E, 0x92722C85,
    0xA2BFE8A1, 0xA81A664B, 0xC24B8B70, 0xC76C51A3, 0xD192E819, 0xD6990624, 0xF40E3585, 0x106AA070,
    0x19A4C116, 0x1E376C08, 0x2748774C, 0x34B0BCB5, 0x391C0CB3, 0x4ED8AA4A, 0x5B9CCA4F, 0x682E6FF3,
    0x748F82EE, 0x78A5636F, 0x84C87814, 0x8CC70208, 0x90BEFFFA, 0xA4506CEB, 0xBEF9A3F7, 0xC67178F2]"

type_synonym hash_state = "u32 \<times> u32 \<times> u32 \<times> u32 \<times> u32 \<times> u32 \<times> u32 \<times> u32"

definition H256_init :: hash_state where
  "H256_init = (0x6A09E667, 0xBB67AE85, 0x3C6EF372, 0xA54FF53A,
                0x510E527F, 0x9B05688C, 0x1F83D9AB, 0x5BE0CD19)"

text \<open>
  Section 5.1.1: the message, the byte \<open>0x80\<close>, zero bytes up to 56 modulo 64, and the
  length of the message in bits as a 64-bit big-endian number. Section 5.2.1: blocks of
  64 bytes, each read as sixteen big-endian words.
\<close>

definition be64 :: "64 word \<Rightarrow> byte list" where
  "be64 n = [ucast (drop_bit 56 n), ucast (drop_bit 48 n), ucast (drop_bit 40 n),
             ucast (drop_bit 32 n), ucast (drop_bit 24 n), ucast (drop_bit 16 n),
             ucast (drop_bit 8 n), ucast n]"

definition be32 :: "u32 \<Rightarrow> byte list" where
  "be32 w = [ucast (drop_bit 24 w), ucast (drop_bit 16 w), ucast (drop_bit 8 w), ucast w]"

definition pad :: "byte list \<Rightarrow> byte list" where
  "pad m = m @ [0x80] @ replicate ((119 - length m mod 64) mod 64) 0
             @ be64 (of_nat (8 * length m))"

function blocks :: "byte list \<Rightarrow> byte list list" where
  "blocks bs = (if length bs < 64 then [] else take 64 bs # blocks (drop 64 bs))"
  by pat_completeness auto
termination
  by (relation "measure length") auto

declare blocks.simps [simp del]

definition word_of_bytes :: "byte \<Rightarrow> byte \<Rightarrow> byte \<Rightarrow> byte \<Rightarrow> u32" where
  "word_of_bytes b0 b1 b2 b3 =
     push_bit 24 (ucast b0) OR push_bit 16 (ucast b1) OR push_bit 8 (ucast b2) OR ucast b3"

fun words_of :: "byte list \<Rightarrow> u32 list" where
  "words_of (b0 # b1 # b2 # b3 # bs) = word_of_bytes b0 b1 b2 b3 # words_of bs"
| "words_of bs = []"

text \<open>
  Section 6.2.2, step 1: the message schedule. \<open>extend n W\<close> appends \<open>n\<close> words to the
  schedule \<open>W\<close> computed so far; the next word has the index \<open>length W\<close>.
\<close>

fun extend :: "nat \<Rightarrow> u32 list \<Rightarrow> u32 list" where
  "extend 0 W = W"
| "extend (Suc n) W =
     extend n
       (W @ [ssig1 (W ! (length W - 2)) + W ! (length W - 7) +
             ssig0 (W ! (length W - 15)) + W ! (length W - 16)])"

text \<open>Step 3: one round on the working variables \<open>a .. h\<close>, with \<open>K\<^sub>t\<close> and \<open>W\<^sub>t\<close>.\<close>

fun round256 :: "hash_state \<Rightarrow> u32 \<times> u32 \<Rightarrow> hash_state" where
  "round256 (a, b, c, d, e, f, g, h) (k, w) =
     (let T1 = h + bsig1 e + Ch e f g + k + w;
          T2 = bsig0 a + Maj a b c
      in (T1 + T2, a, b, c, d + T1, e, f, g))"

fun add_state :: "hash_state \<Rightarrow> hash_state \<Rightarrow> hash_state" where
  "add_state (a, b, c, d, e, f, g, h) (a', b', c', d', e', f', g', h') =
     (a + a', b + b', c + c', d + d', e + e', f + f', g + g', h + h')"

text \<open>Steps 1 to 4 for one block: the new intermediate hash value.\<close>

definition compress :: "hash_state \<Rightarrow> byte list \<Rightarrow> hash_state" where
  "compress H block =
     add_state H (foldl round256 H (zip K256 (extend 48 (words_of block))))"

fun digest_bytes :: "hash_state \<Rightarrow> byte list" where
  "digest_bytes (a, b, c, d, e, f, g, h) =
     be32 a @ be32 b @ be32 c @ be32 d @ be32 e @ be32 f @ be32 g @ be32 h"

definition sha256 :: "byte list \<Rightarrow> byte list" where
  "sha256 m = digest_bytes (foldl compress H256_init (blocks (pad m)))"

text \<open>\<^verbatim>\<open>.hexdigest()\<close>: two lowercase hexadecimal digits per byte of the digest.\<close>

definition hexdigit :: "nat \<Rightarrow> nat" where
  "hexdigit n = py ''0123456789abcdef'' ! n"

definition hex_of_byte :: "byte \<Rightarrow> pystr" where
  "hex_of_byte b = [hexdigit (unat (drop_bit 4 b)), hexdigit (unat (b AND 0x0F))]"

definition hexdigest :: "byte list \<Rightarrow> pystr" where
  "hexdigest bs = concat (map hex_of_byte bs)"

section \<open>The script\<close>

text \<open>
  \<^verbatim>\<open>def anonymize_value(value): return hashlib.sha256(value.encode()).hexdigest()\<close>
\<close>

definition anonymize_value :: "pyval \<Rightarrow> pyerror + pyval" where
  "anonymize_value value =
     (case encode value of
        Inl e \<Rightarrow> Inl e
      | Inr b \<Rightarrow> Inr (PyStr (hexdigest (sha256 b))))"

text \<open>
  A DataFrame is its columns in header order, each a name and a Series of cells; the rows
  are the positions in the Series. \<^verbatim>\<open>df[key]\<close> raises \<^verbatim>\<open>KeyError\<close> for a missing
  column; \<^verbatim>\<open>Series.apply(func)\<close> calls \<open>func\<close> on each cell in order and stops at the
  first exception; \<^verbatim>\<open>df[key] = col\<close> replaces the column in place, or appends one.
\<close>

type_synonym series = "pyval list"
type_synonym dataframe = "(pystr \<times> series) list"

definition and_then :: "pyerror + 'a \<Rightarrow> ('a \<Rightarrow> pyerror + 'b) \<Rightarrow> pyerror + 'b" where
  "and_then r k = (case r of Inl e \<Rightarrow> Inl e | Inr x \<Rightarrow> k x)"

definition getitem :: "dataframe \<Rightarrow> pystr \<Rightarrow> pyerror + series" where
  "getitem df key = (case map_of df key of None \<Rightarrow> Inl KeyError | Some col \<Rightarrow> Inr col)"

fun series_apply :: "(pyval \<Rightarrow> pyerror + pyval) \<Rightarrow> series \<Rightarrow> pyerror + series" where
  "series_apply func [] = Inr []"
| "series_apply func (v # vs) =
     (case func v of
        Inl e \<Rightarrow> Inl e
      | Inr y \<Rightarrow>
          (case series_apply func vs of
             Inl e \<Rightarrow> Inl e
           | Inr ys \<Rightarrow> Inr (y # ys)))"

definition setitem :: "dataframe \<Rightarrow> pystr \<Rightarrow> series \<Rightarrow> dataframe" where
  "setitem df key col =
     (case map_of df key of
        None \<Rightarrow> df @ [(key, col)]
      | Some old \<Rightarrow> map (\<lambda>(name, cells). (name, if name = key then col else cells)) df)"

text \<open>
  The files and the console. A CSV file is represented by the table that
  \<^verbatim>\<open>read_csv\<close> parses from it and \<^verbatim>\<open>to_csv\<close> renders into it; what pandas makes
  of the text of a file when it reads it, and what text it writes for a table, is the
  subject of the section on the text of a CSV file below. With \<^verbatim>\<open>index=True\<close>,
  \<^verbatim>\<open>to_csv\<close> writes the row numbers as a first column with an empty name; the script
  passes \<^verbatim>\<open>index=False\<close>.
\<close>

record world =
  files :: "pystr \<rightharpoonup> dataframe"
  stdout :: "pystr list"

definition read_csv :: "world \<Rightarrow> pystr \<Rightarrow> pyerror + dataframe" where
  "read_csv w path =
     (case files w path of None \<Rightarrow> Inl FileNotFoundError | Some table \<Rightarrow> Inr table)"

definition nrows :: "dataframe \<Rightarrow> nat" where
  "nrows df = (case df of [] \<Rightarrow> 0 | (name, cells) # rest \<Rightarrow> length cells)"

definition index_column :: "dataframe \<Rightarrow> pystr \<times> series" where
  "index_column df = ([], map (\<lambda>i. PyInt (int i)) [0..<nrows df])"

definition to_csv :: "dataframe \<Rightarrow> pystr \<Rightarrow> bool \<Rightarrow> world \<Rightarrow> world" where
  "to_csv df path index w =
     w\<lparr>files := (files w)(path \<mapsto> (if index then index_column df # df else df))\<rparr>"

definition print :: "pystr \<Rightarrow> world \<Rightarrow> world" where
  "print line w = w\<lparr>stdout := stdout w @ [line]\<rparr>"

text \<open>The statement \<^verbatim>\<open>df[key] = df[key].apply(anonymize_value)\<close>.\<close>

definition anonymize_column :: "pystr \<Rightarrow> dataframe \<Rightarrow> pyerror + dataframe" where
  "anonymize_column key df =
     and_then (getitem df key) (\<lambda>col.
     and_then (series_apply anonymize_value col) (\<lambda>hashed.
     Inr (setitem df key hashed)))"

text \<open>
  The statements of the module, top to bottom. The assignment to
  \<^verbatim>\<open>df['assignment_id']\<close> is commented out in the source and so has no counterpart here.
  An exception ends the script before anything is written or printed.
\<close>

definition run :: "world \<Rightarrow> pyerror + world" where
  "run w =
     and_then (read_csv w (py ''participants.csv'')) (\<lambda>df.
     and_then (anonymize_column (py ''workerid'') df) (\<lambda>df.
     and_then (anonymize_column (py ''hitId'') df) (\<lambda>df.
     Inr (print (py ''Anonymization completed and saved to 'anonymized_file.csv'.'')
           (to_csv df (py ''anonymized_participants.csv'') False w)))))"

text \<open>Predicates used to state the properties below.\<close>

fun is_str :: "pyval \<Rightarrow> bool" where
  "is_str (PyStr s) = True"
| "is_str v = False"

definition has_surrogate :: "pystr \<Rightarrow> bool" where
  "has_surrogate s = list_ex is_surrogate s"

text \<open>The cells on which \<open>anonymize_value\<close> returns: the strings with no surrogate.\<close>

fun hashable :: "pyval \<Rightarrow> bool" where
  "hashable (PyStr s) = (\<not> has_surrogate s)"
| "hashable v = False"

text \<open>
  A table as \<^verbatim>\<open>read_csv\<close> returns it: the column names are distinct (pandas renames a
  repeated header) and all columns have the same number of cells. The header is the list
  of column names and a row is the list of the cells at one position.
\<close>

definition header :: "dataframe \<Rightarrow> pystr list" where
  "header df = map fst df"

definition row :: "dataframe \<Rightarrow> nat \<Rightarrow> pyval list" where
  "row df r = map (\<lambda>(name, cells). cells ! r) df"

definition wf_dataframe :: "dataframe \<Rightarrow> bool" where
  "wf_dataframe df \<longleftrightarrow>
     distinct (header df) \<and> list_all (\<lambda>(name, cells). length cells = nrows df) df"

definition is_identifier :: "pystr \<Rightarrow> bool" where
  "is_identifier name \<longleftrightarrow> name = py ''workerid'' \<or> name = py ''hitId''"

text \<open>
  The end-to-end scenario of the specification: the table of the input file, the world
  the script starts in, and the table expected in the output file, with the digests of
  \<^verbatim>\<open>alice\<close>, \<^verbatim>\<open>bob\<close>, \<^verbatim>\<open>HIT001\<close> and \<^verbatim>\<open>HIT002\<close> as an independent SHA-256
  implementation prints them.
\<close>

definition scenario_input :: dataframe where
  "scenario_input =
     [(py ''workerid'', [PyStr (py ''alice''), PyStr (py ''bob'')]),
      (py ''hitId'', [PyStr (py ''HIT001''), PyStr (py ''HIT002'')]),
      (py ''score'', [PyInt 5, PyInt 7])]"

definition scenario_world :: world where
  "scenario_world = \<lparr>files = [py ''participants.csv'' \<mapsto> scenario_input], stdout = []\<rparr>"

definition scenario_output :: dataframe where
  "scenario_output =
     [(py ''workerid'',
        [PyStr (py ''2bd806c97f0e00af1a1fc3328fa763a9269723c8db8fac4f93af71db186d6e90''),
         PyStr (py ''81b637d8fcd2c6da6359e6963113a1170de795e4b725b84d1e0b4cfd9ec58ce9'')]),
      (py ''hitId'',
        [PyStr (py ''dc2c6589e8d10b4c3b068741a804f869ccbd365e242831e9544e9e609bbed2dc''),
         PyStr (py ''f49f24ccb74b3b3545c9adc47a5cb0cd459341fc426a5447d120c65e101bc52b'')]),
      (py ''score'', [PyInt 5, PyInt 7])]"

definition scenario_result :: world where
  "scenario_result =
     \<lparr>files = [py ''participants.csv'' \<mapsto> scenario_input,
               py ''anonymized_participants.csv'' \<mapsto> scenario_output],
      stdout = [py ''Anonymization completed and saved to 'anonymized_file.csv'.'']\<rparr>"

section \<open>The text of a CSV file\<close>

text \<open>
  \<^verbatim>\<open>read_csv\<close> and \<^verbatim>\<open>to_csv\<close> are functions of pandas. This section gives what they
  do with the text of a file, on the part of the format that the properties of the
  untouched columns need. The text of a CSV file is given by its fields: for each column
  the field of the header line and the fields of the data lines, top to bottom, each as
  it stands between the separators. In a world, the file at a path is the table that
  \<^verbatim>\<open>read_csv\<close> parses from the text at that path (\<open>parse_csv\<close>), and the text that
  \<^verbatim>\<open>to_csv\<close> leaves at a path is the rendering of the table stored there
  (\<open>render_csv\<close>).
\<close>

type_synonym csv_text = "(pystr \<times> pystr list) list"

definition is_digit :: "nat \<Rightarrow> bool" where
  "is_digit c \<longleftrightarrow> 48 \<le> c \<and> c \<le> 57"

definition is_alnum :: "nat \<Rightarrow> bool" where
  "is_alnum c \<longleftrightarrow> is_digit c \<or> (65 \<le> c \<and> c \<le> 90) \<or> (97 \<le> c \<and> c \<le> 122)"

text \<open>A column name of the fragment: letters, digits and the underscore, not empty.\<close>

definition name_field :: "pystr \<Rightarrow> bool" where
  "name_field f \<longleftrightarrow> f \<noteq> [] \<and> list_all (\<lambda>c. is_alnum c \<or> c = 95) f"

text \<open>
  A field that pandas can only read as a string: letters and digits, with at least one
  letter that occurs in no numeral (digits, exponent, \<^verbatim>\<open>inf\<close>, \<^verbatim>\<open>Infinity\<close>,
  \<^verbatim>\<open>nan\<close>), no truth value (\<^verbatim>\<open>True\<close>, \<^verbatim>\<open>False\<close> in any case) and no default
  missing-value marker (\<^verbatim>\<open>NA\<close>, \<^verbatim>\<open>N/A\<close>, \<^verbatim>\<open>NaN\<close>, \<^verbatim>\<open>NULL\<close>, \<^verbatim>\<open>None\<close>, \<^verbatim>\<open>IND\<close>,
  \<^verbatim>\<open>QNAN\<close> and their variants). The condition is sufficient, not necessary.
\<close>

definition text_letter :: "nat \<Rightarrow> bool" where
  "text_letter c \<longleftrightarrow> c \<in> set (py ''bcghkmwzBCGHKMWZ'')"

definition text_field :: "pystr \<Rightarrow> bool" where
  "text_field f \<longleftrightarrow> list_all is_alnum f \<and> list_ex text_letter f"

text \<open>Five of the default missing-value markers of \<^verbatim>\<open>read_csv\<close>.\<close>

definition na_field :: "pystr \<Rightarrow> bool" where
  "na_field f \<longleftrightarrow> f \<in> set [py ''NA'', py ''NaN'', py ''nan'', py ''NULL'', py ''null'']"

text \<open>
  An unsigned decimal numeral and its value. A column of such fields, each below
  \<open>2\<^sup>6\<^sup>3\<close>, is read with the type \<^verbatim>\<open>int64\<close>.
\<close>

definition decimal :: "pystr \<Rightarrow> nat" where
  "decimal f = foldl (\<lambda>n c. 10 * n + (c - 48)) 0 f"

definition int_field :: "pystr \<Rightarrow> bool" where
  "int_field f \<longleftrightarrow> f \<noteq> [] \<and> list_all is_digit f \<and> decimal f < 2 ^ 63"

text \<open>
  \<^verbatim>\<open>read_csv\<close> infers the type of a column from all of its fields: integers if every
  field is a numeral, strings (with \<open>NaN\<close> at the missing-value markers) if every field
  is text or a marker. Any other column (floating-point numbers, truth values, signs,
  empty or quoted fields, numerals mixed with text or markers) is outside the fragment,
  as is a header with an empty or repeated name, which pandas renames.
\<close>

definition infer_column :: "pystr list \<Rightarrow> series option" where
  "infer_column fs =
     (if list_all int_field fs
      then Some (map (\<lambda>f. PyInt (int (decimal f))) fs)
      else if list_all (\<lambda>f. text_field f \<or> na_field f) fs
      then Some (map (\<lambda>f. if na_field f then NaN else PyStr f) fs)
      else None)"

definition parse_csv :: "csv_text \<Rightarrow> dataframe option" where
  "parse_csv t =
     (if t \<noteq> [] \<and> distinct (map fst t) \<and> list_all name_field (map fst t) \<and>
         list_all (\<lambda>(name, fs). length fs = length (snd (hd t))) t
      then those (map (\<lambda>(name, fs). map_option (Pair name) (infer_column fs)) t)
      else None)"

text \<open>
  \<^verbatim>\<open>to_csv\<close> writes an integer as Python's \<^verbatim>\<open>str\<close> prints it, a string of letters and
  digits as it is, a truth value as \<^verbatim>\<open>True\<close> or \<^verbatim>\<open>False\<close>, and \<open>NaN\<close> as the empty
  field. Other floating-point numbers, and strings that are empty or may need quoting,
  are outside the fragment; so is a table of one column, where a line that consists of
  one empty field is written quoted.
\<close>

fun digits :: "nat \<Rightarrow> pystr" where
  "digits n = (if n < 10 then [48 + n] else digits (n div 10) @ [48 + n mod 10])"

declare digits.simps [simp del]

definition str_int :: "int \<Rightarrow> pystr" where
  "str_int i = (if i < 0 then 45 # digits (nat (- i)) else digits (nat i))"

fun render_cell :: "pyval \<Rightarrow> pystr option" where
  "render_cell (PyStr s) = (if s \<noteq> [] \<and> list_all is_alnum s then Some s else None)"
| "render_cell (PyInt i) = Some (str_int i)"
| "render_cell (PyFloat x) = (if PyFloat x = NaN then Some [] else None)"
| "render_cell (PyBool b) = Some (if b then py ''True'' else py ''False'')"

definition render_csv :: "dataframe \<Rightarrow> csv_text option" where
  "render_csv df =
     (if 2 \<le> length df \<and> list_all name_field (map fst df)
      then those (map (\<lambda>(name, cells). map_option (Pair name) (those (map render_cell cells))) df)
      else None)"

text \<open>
  What reading a field and writing it again makes of it: a numeral becomes the decimal
  numeral of its value, a missing-value marker the empty field, and text stays as it is.
\<close>

definition canonical :: "pystr \<Rightarrow> pystr" where
  "canonical f =
     (if int_field f then str_int (int (decimal f)) else if na_field f then [] else f)"

text \<open>
  An input with a column \<^verbatim>\<open>assignment_id\<close> of numerals with leading zeros and a column
  \<^verbatim>\<open>cohort\<close> with a missing-value marker: the text of the input file, the table read
  from it, the world the script starts in, the table written, the world the script ends
  in, and the text of the output file.
\<close>

definition example_text :: csv_text where
  "example_text =
     [(py ''workerid'', [py ''alice'', py ''bob'']),
      (py ''hitId'', [py ''HIT001'', py ''HIT002'']),
      (py ''assignment_id'', [py ''007'', py ''012'']),
      (py ''cohort'', [py ''NA'', py ''beta'']),
      (py ''score'', [py ''5'', py ''7''])]"

definition example_table :: dataframe where
  "example_table =
     [(py ''workerid'', [PyStr (py ''alice''), PyStr (py ''bob'')]),
      (py ''hitId'', [PyStr (py ''HIT001''), PyStr (py ''HIT002'')]),
      (py ''assignment_id'', [PyInt 7, PyInt 12]),
      (py ''cohort'', [NaN, PyStr (py ''beta'')]),
      (py ''score'', [PyInt 5, PyInt 7])]"

definition example_world :: world where
  "example_world = \<lparr>files = [py ''participants.csv'' \<mapsto> example_table], stdout = []\<rparr>"

definition example_output :: dataframe where
  "example_output =
     [(py ''workerid'',
        [PyStr (py ''2bd806c97f0e00af1a1fc3328fa763a9269723c8db8fac4f93af71db186d6e90''),
         PyStr (py ''81b637d8fcd2c6da6359e6963113a1170de795e4b725b84d1e0b4cfd9ec58ce9'')]),
      (py ''hitId'',
        [PyStr (py ''dc2c6589e8d10b4c3b068741a804f869ccbd365e242831e9544e9e609bbed2dc''),
         PyStr (py ''f49f24ccb74b3b3545c9adc47a5cb0cd459341fc426a5447d120c65e101bc52b'')]),
      (py ''assignment_id'', [PyInt 7, PyInt 12]),
      (py ''cohort'', [NaN, PyStr (py ''beta'')]),
      (py ''score'', [PyInt 5, PyInt 7])]"

definition example_result :: world where
  "example_result =
     \<lparr>files = [py ''participants.csv'' \<mapsto> example_table,
               py ''anonymized_participants.csv'' \<mapsto> example_output],
      stdout = [py ''Anonymization completed and saved to 'anonymized_file.csv'.'']\<rparr>"

definition example_written :: csv_text where
  "example_written =
     [(py ''workerid'',
        [py ''2bd806c97f0e00af1a1fc3328fa763a9269723c8db8fac4f93af71db186d6e90'',
         py ''81b637d8fcd2c6da6359e6963113a1170de795e4b725b84d1e0b4cfd9ec58ce9'']),
      (py ''hitId'',
        [py ''dc2c6589e8d10b4c3b068741a804f869ccbd365e242831e9544e9e609bbed2dc'',
         py ''f49f24ccb74b3b3545c9adc47a5cb0cd459341fc426a5447d120c65e101bc52b'']),
      (py ''assignment_id'', [py ''7'', py ''12'']),
      (py ''cohort'', [[], py ''beta'']),
      (py ''score'', [py ''5'', py ''7''])]"

section \<open>Facts about the encoding and the rendering\<close>

lemma py_eq_iff: "py a = py b \<longleftrightarrow> a = b"
  by (metis list.inj_map_strong of_char_eq_iff py_def)

lemma utf8_char_no_surrogate: "\<not> is_surrogate c \<Longrightarrow> \<exists>bs. utf8_char c = Inr bs"
  by (simp add: utf8_char_def)

lemma utf8_char_error: "utf8_char c = Inl e \<Longrightarrow> e = UnicodeEncodeError \<and> is_surrogate c"
  by (simp add: utf8_char_def split: if_splits)

lemma utf8_encode_total: "\<not> has_surrogate s \<Longrightarrow> \<exists>b. utf8_encode s = Inr b"
proof (induction s)
  case Nil
  then show ?case by simp
next
  case (Cons c cs)
  then obtain bs rest where "utf8_char c = Inr bs" "utf8_encode cs = Inr rest"
    using utf8_char_no_surrogate [of c] by (auto simp add: has_surrogate_def)
  then show ?case by simp
qed

lemma utf8_encode_error:
  "utf8_encode s = Inl e \<Longrightarrow> e = UnicodeEncodeError \<and> has_surrogate s"
proof (induction s)
  case Nil
  then show ?case by simp
next
  case (Cons c cs)
  then show ?case
    by (auto simp add: has_surrogate_def split: sum.splits dest: utf8_char_error)
qed

lemma length_be32: "length (be32 w) = 4"
  by (simp add: be32_def)

lemma length_digest_bytes: "length (digest_bytes H) = 32"
  by (induction H rule: digest_bytes.induct) (simp add: length_be32)

lemma length_sha256: "length (sha256 m) = 32"
  by (simp add: sha256_def length_digest_bytes)

lemma length_hexdigest: "length (hexdigest bs) = 2 * length bs"
  by (induction bs) (simp_all add: hexdigest_def hex_of_byte_def)

lemma high_nibble: "unat (drop_bit 4 (b :: byte)) < 16"
proof -
  have "unat b < 256"
    using unsigned_less [of b, where ?'a = nat] by simp
  moreover have "unat (drop_bit 4 b) = drop_bit 4 (unat b)"
    by (rule unat_drop_bit_eq)
  moreover have "drop_bit 4 (unat b) = unat b div 16"
    by (simp add: drop_bit_eq_div)
  ultimately show ?thesis by simp
qed

lemma low_nibble: "unat ((b :: byte) AND 0x0F) < 16"
proof -
  have "unat (b AND 0x0F) \<le> unat (0x0F :: byte)"
    by (rule word_and_le1 [THEN word_le_nat_alt [THEN iffD1]])
  then show ?thesis by simp
qed

lemma hexdigit_mem: "n < 16 \<Longrightarrow> hexdigit n \<in> set (py ''0123456789abcdef'')"
  unfolding hexdigit_def by (rule nth_mem) (simp add: py_def)

lemma set_hexdigest: "set (hexdigest bs) \<subseteq> set (py ''0123456789abcdef'')"
  by (induction bs)
    (simp_all add: hexdigest_def hex_of_byte_def hexdigit_mem high_nibble low_nibble)

lemma anonymize_value_shape:
  assumes "anonymize_value v = Inr r"
  shows "\<exists>h. r = PyStr h \<and> length h = 64 \<and> set h \<subseteq> set (py ''0123456789abcdef'')"
  using assms
  by (auto simp add: anonymize_value_def length_hexdigest length_sha256 set_hexdigest
      split: sum.splits)

lemma anonymize_value_returns:
  assumes "\<not> has_surrogate s"
  shows "\<exists>h. anonymize_value (PyStr s) = Inr (PyStr h)"
  using utf8_encode_total [OF assms] by (auto simp add: anonymize_value_def)

lemma utf8_char_surrogate: "is_surrogate c \<Longrightarrow> utf8_char c = Inl UnicodeEncodeError"
  by (simp add: utf8_char_def is_surrogate_def)

lemma utf8_encode_surrogate: "has_surrogate s \<Longrightarrow> utf8_encode s = Inl UnicodeEncodeError"
proof (induction s)
  case Nil
  then show ?case by (simp add: has_surrogate_def)
next
  case (Cons c cs)
  show ?case
  proof (cases "is_surrogate c")
    case True
    then show ?thesis by (simp add: utf8_char_surrogate)
  next
    case False
    with Cons.prems have "has_surrogate cs" by (simp add: has_surrogate_def)
    then have "utf8_encode cs = Inl UnicodeEncodeError" by (rule Cons.IH)
    then show ?thesis
      by (auto split: sum.splits dest: utf8_char_error)
  qed
qed

lemma anonymize_value_raises:
  assumes "has_surrogate s"
  shows "anonymize_value (PyStr s) = Inl UnicodeEncodeError"
  using utf8_encode_surrogate [OF assms] by (simp add: anonymize_value_def)

lemma anonymize_value_returns_iff: "(\<exists>r. anonymize_value v = Inr r) \<longleftrightarrow> hashable v"
proof (cases v)
  case (PyStr s)
  show ?thesis
  proof (cases "has_surrogate s")
    case True
    with PyStr show ?thesis by (simp add: anonymize_value_raises)
  next
    case False
    with PyStr anonymize_value_returns [OF False] show ?thesis by auto
  qed
qed (simp_all add: anonymize_value_def)

section \<open>Evaluating SHA-256 by rewriting\<close>

text \<open>
  A digest of a concrete message is computed inside the logic by rewriting. Every 32-bit
  word is kept in the form \<open>word_of_int k\<close> with \<open>0 \<le> k < 2\<^sup>3\<^sup>2\<close>; the operations of
  the compression function are carried out on the integers \<open>k\<close>, and every count of bits
  as a unary number.
\<close>

lemma ev_num: "(numeral k :: 'a::len word) = word_of_int (numeral k)"
  by simp

lemma ev_zero: "(0 :: 'a::len word) = word_of_int 0"
  by simp

lemma ev_one: "(1 :: 'a::len word) = word_of_int (numeral Num.One)"
  by simp

lemma ev_add: "(word_of_int a :: u32) + word_of_int b = word_of_int (take_bit 32 (a + b))"
  by transfer simp

lemma ev_xor: "(word_of_int a :: 'a::len word) XOR word_of_int b = word_of_int (a XOR b)"
  by transfer simp

lemma ev_and: "(word_of_int a :: 'a::len word) AND word_of_int b = word_of_int (a AND b)"
  by transfer simp

lemma ev_or: "(word_of_int a :: 'a::len word) OR word_of_int b = word_of_int (a OR b)"
  by transfer simp

lemma ev_not: "NOT (word_of_int a :: u32) = word_of_int (a XOR 4294967295)"
proof -
  have "NOT (word_of_int a :: u32) = word_of_int a XOR - 1"
    by simp
  also have "(- 1 :: u32) = word_of_int 4294967295"
    by simp
  finally show ?thesis
    by (simp only: ev_xor)
qed

lemma ev_drop32: "drop_bit n (word_of_int a :: u32) = word_of_int (drop_bit n (take_bit 32 a))"
  by (rule bit_word_eqI) (auto simp add: bit_simps)

lemma ev_push32: "push_bit n (word_of_int a :: u32) = word_of_int (take_bit 32 (push_bit n a))"
  by (rule bit_word_eqI) (auto simp add: bit_simps)

lemma ev_drop8: "drop_bit n (word_of_int a :: byte) = word_of_int (drop_bit n (take_bit 8 a))"
  by (rule bit_word_eqI) (auto simp add: bit_simps)

lemma ev_ucast_byte: "(ucast (word_of_int a :: byte) :: u32) = word_of_int (take_bit 8 a)"
  by (rule bit_word_eqI) (auto simp add: bit_simps)

lemma ev_ucast_u32: "(ucast (word_of_int a :: u32) :: byte) = word_of_int (take_bit 8 a)"
  by (rule bit_word_eqI) (auto simp add: bit_simps)

lemma ev_unat: "unat (word_of_int a :: byte) = nat (take_bit 8 a)"
  by transfer simp

lemma ev_take_bit:
  "take_bit n (numeral k :: int) = (case take_bit_num n k of None \<Rightarrow> 0 | Some q \<Rightarrow> numeral q)"
  by (cases "take_bit_num n k")
    (simp_all add: take_bit_num_eq_None_imp take_bit_num_eq_Some_imp)

lemma ev_drop_One: "drop_bit (Suc n) (numeral Num.One :: int) = 0"
  by simp

lemma ev_push_0: "push_bit 0 (a :: int) = a"
  by simp

lemma ev_drop_0: "drop_bit 0 (a :: int) = a"
  by simp

lemma ev_nat_One: "(numeral Num.One :: nat) = Suc 0"
  by simp

lemma ev_nat_Bit0: "(numeral (Num.Bit0 n) :: nat) = Suc (numeral (Num.BitM n))"
  by (simp add: eval_nat_numeral)

lemma ev_nat_Bit1: "(numeral (Num.Bit1 n) :: nat) = Suc (numeral (Num.Bit0 n))"
  by (simp add: eval_nat_numeral)

lemma replicate_numeral: "replicate (numeral k) x = x # replicate (pred_numeral k) x"
  by (simp add: numeral_eq_Suc)

lemma hexdigits: "py ''0123456789abcdef'' =
    [48, 49, 50, 51, 52, 53, 54, 55, 56, 57, 97, 98, 99, 100, 101, 102]"
  by (simp add: py_def)

text \<open>The message is padded and cut into blocks by the simplifier's usual rules.\<close>

lemmas ev_pad = sha256_def pad_def be64_def blocks.simps replicate_numeral

text \<open>The blocks are compressed, and the digest is cut into nibbles, by these rules alone.\<close>

lemmas ev_compress =
  compress_def K256_def H256_init_def rotr_def Ch_def Maj_def
  bsig0_def bsig1_def ssig0_def ssig1_def
  round256.simps add_state.simps words_of.simps word_of_bytes_def extend.simps Let_def
  digest_bytes.simps be32_def hexdigest_def hex_of_byte_def
  list.map foldl.simps zip_Cons_Cons zip_Nil zip.simps(1) append.simps concat.simps
  list.size(3) length_Cons nth_Cons_0 nth_Cons_Suc
  ev_nat_One ev_nat_Bit0 ev_nat_Bit1 BitM.simps diff_Suc_Suc minus_nat.diff_0
  ev_num ev_zero ev_one ev_add ev_xor ev_and ev_or ev_not ev_drop32 ev_push32 ev_drop8
  ev_ucast_byte ev_ucast_u32 ev_unat nat_numeral nat_0
  numeral_plus_numeral add_num_simps add_0_left add_0_right
  numeral_xor_num xor_num.simps xor.left_neutral xor.right_neutral
  numeral_and_num and_num.simps and_zero_eq zero_and_eq
  numeral_or_num or_num.simps or.left_neutral or.right_neutral
  option.simps(4,5) option.map
  ev_take_bit take_bit_num_simps(1-4) take_bit_of_0
  drop_bit_Suc_bit0 drop_bit_Suc_bit1 ev_drop_One ev_drop_0 drop_bit_of_0
  push_bit_Suc_numeral ev_push_0 push_bit_of_0

text \<open>The nibbles are looked up in the table of hexadecimal digits.\<close>

lemmas ev_lookup = hexdigit_def hexdigits nth_Cons_0 nth_Cons_Suc

text \<open>
  Two test vectors of the standard's examples: the one-block message \<^verbatim>\<open>abc\<close> and the
  two-block message of 56 bytes.
\<close>

lemma sha256_abc:
  "hexdigest (sha256 [0x61, 0x62, 0x63]) =
     py ''ba7816bf8f01cfea414140de5dae2223b00361a396177a9cb410ff61f20015ad''"
  apply (simp add: ev_pad)
  apply (simp only: ev_compress)
  apply (simp only: ev_lookup)
  apply (simp add: py_def)
  done

lemma sha256_two_blocks:
  "hexdigest (sha256 (map (of_nat \<circ> of_char)
       ''abcdbcdecdefdefgefghfghighijhijkijkljklmklmnlmnomnopnopq'')) =
     py ''248d6a61d20638b8e5c026930c3e6039a33ce45964ff2167f6ecedd419db06c1''"
  apply (simp add: ev_pad)
  apply (simp only: ev_compress)
  apply (simp only: ev_lookup)
  apply (simp add: py_def)
  done

text \<open>The digests of the empty string and of the four identifiers of the scenario.\<close>

lemma anonymize_empty:
  "anonymize_value (PyStr []) =
     Inr (PyStr (py ''e3b0c44298fc1c149afbf4c8996fb92427ae41e4649b934ca495991b7852b855''))"
proof -
  have "hexdigest (sha256 []) =
      py ''e3b0c44298fc1c149afbf4c8996fb92427ae41e4649b934ca495991b7852b855''"
    apply (simp add: ev_pad)
    apply (simp only: ev_compress)
    apply (simp only: ev_lookup)
    apply (simp add: py_def)
    done
  then show ?thesis
    by (simp add: anonymize_value_def)
qed

lemma anonymize_alice:
  "anonymize_value (PyStr (py ''alice'')) =
     Inr (PyStr (py ''2bd806c97f0e00af1a1fc3328fa763a9269723c8db8fac4f93af71db186d6e90''))"
proof -
  have "utf8_encode (py ''alice'') = Inr [0x61, 0x6C, 0x69, 0x63, 0x65]"
    by (simp add: py_def utf8_char_def)
  moreover have "hexdigest (sha256 [0x61, 0x6C, 0x69, 0x63, 0x65]) =
      py ''2bd806c97f0e00af1a1fc3328fa763a9269723c8db8fac4f93af71db186d6e90''"
    apply (simp add: ev_pad)
    apply (simp only: ev_compress)
    apply (simp only: ev_lookup)
    apply (simp add: py_def)
    done
  ultimately show ?thesis
    by (simp add: anonymize_value_def)
qed

lemma anonymize_HIT001:
  "anonymize_value (PyStr (py ''HIT001'')) =
     Inr (PyStr (py ''dc2c6589e8d10b4c3b068741a804f869ccbd365e242831e9544e9e609bbed2dc''))"
proof -
  have "utf8_encode (py ''HIT001'') = Inr [0x48, 0x49, 0x54, 0x30, 0x30, 0x31]"
    by (simp add: py_def utf8_char_def)
  moreover have "hexdigest (sha256 [0x48, 0x49, 0x54, 0x30, 0x30, 0x31]) =
      py ''dc2c6589e8d10b4c3b068741a804f869ccbd365e242831e9544e9e609bbed2dc''"
    apply (simp add: ev_pad)
    apply (simp only: ev_compress)
    apply (simp only: ev_lookup)
    apply (simp add: py_def)
    done
  ultimately show ?thesis
    by (simp add: anonymize_value_def)
qed

lemma anonymize_bob:
  "anonymize_value (PyStr (py ''bob'')) =
     Inr (PyStr (py ''81b637d8fcd2c6da6359e6963113a1170de795e4b725b84d1e0b4cfd9ec58ce9''))"
proof -
  have "utf8_encode (py ''bob'') = Inr [0x62, 0x6F, 0x62]"
    by (simp add: py_def utf8_char_def)
  moreover have "hexdigest (sha256 [0x62, 0x6F, 0x62]) =
      py ''81b637d8fcd2c6da6359e6963113a1170de795e4b725b84d1e0b4cfd9ec58ce9''"
    apply (simp add: ev_pad)
    apply (simp only: ev_compress)
    apply (simp only: ev_lookup)
    apply (simp add: py_def)
    done
  ultimately show ?thesis
    by (simp add: anonymize_value_def)
qed

lemma anonymize_HIT002:
  "anonymize_value (PyStr (py ''HIT002'')) =
     Inr (PyStr (py ''f49f24ccb74b3b3545c9adc47a5cb0cd459341fc426a5447d120c65e101bc52b''))"
proof -
  have "utf8_encode (py ''HIT002'') = Inr [0x48, 0x49, 0x54, 0x30, 0x30, 0x32]"
    by (simp add: py_def utf8_char_def)
  moreover have "hexdigest (sha256 [0x48, 0x49, 0x54, 0x30, 0x30, 0x32]) =
      py ''f49f24ccb74b3b3545c9adc47a5cb0cd459341fc426a5447d120c65e101bc52b''"
    apply (simp add: ev_pad)
    apply (simp only: ev_compress)
    apply (simp only: ev_lookup)
    apply (simp add: py_def)
    done
  ultimately show ?thesis
    by (simp add: anonymize_value_def)
qed

text \<open>
  The encoder on one, two, three and four bytes per code point, and two digests through
  \<open>anonymize_value\<close>: the standard's \<^verbatim>\<open>abc\<close>, and a string outside ASCII (U+00E9,
  U+20AC, U+1F600).
\<close>

lemma utf8_encode_example:
  "utf8_encode [0x61, 0xE9, 0x20AC, 0x1F600] =
     Inr [0x61, 0xC3, 0xA9, 0xE2, 0x82, 0xAC, 0xF0, 0x9F, 0x98, 0x80]"
  by (simp add: utf8_char_def is_surrogate_def)

lemma anonymize_abc:
  "anonymize_value (PyStr (py ''abc'')) =
     Inr (PyStr (py ''ba7816bf8f01cfea414140de5dae2223b00361a396177a9cb410ff61f20015ad''))"
proof -
  have "utf8_encode (py ''abc'') = Inr [0x61, 0x62, 0x63]"
    by (simp add: py_def utf8_char_def)
  with sha256_abc show ?thesis
    by (simp add: anonymize_value_def)
qed

lemma anonymize_non_ascii:
  "anonymize_value (PyStr [0xE9, 0x20AC, 0x1F600]) =
     Inr (PyStr (py ''df9226927fd572c1ee66eec85de1bb139497614899f36e4e90474cb71f6ef9d0''))"
proof -
  have "utf8_encode [0xE9, 0x20AC, 0x1F600] =
      Inr [0xC3, 0xA9, 0xE2, 0x82, 0xAC, 0xF0, 0x9F, 0x98, 0x80]"
    by (simp add: utf8_char_def is_surrogate_def)
  moreover have "hexdigest (sha256 [0xC3, 0xA9, 0xE2, 0x82, 0xAC, 0xF0, 0x9F, 0x98, 0x80]) =
      py ''df9226927fd572c1ee66eec85de1bb139497614899f36e4e90474cb71f6ef9d0''"
    apply (simp add: ev_pad)
    apply (simp only: ev_compress)
    apply (simp only: ev_lookup)
    apply (simp add: py_def)
    done
  ultimately show ?thesis
    by (simp add: anonymize_value_def)
qed

section \<open>Facts about the script\<close>

text \<open>
  What a successful run has done: the input file held a table with both identifier
  columns, every cell of the two columns was hashed, and the table with the two columns
  replaced was written to the output file before the message was printed.
\<close>

lemma series_apply_Inr:
  "series_apply func xs = Inr ys \<Longrightarrow> list_all2 (\<lambda>x y. func x = Inr y) xs ys"
proof (induction xs arbitrary: ys)
  case Nil
  then show ?case by simp
next
  case (Cons x xs)
  then show ?case by (auto split: sum.splits)
qed

lemma series_apply_same_cell:
  assumes "series_apply anonymize_value xs = Inr ys"
    and "series_apply anonymize_value xs' = Inr ys'"
    and "i < length xs" and "j < length xs'" and "xs ! i = xs' ! j"
  shows "ys ! i = ys' ! j"
proof -
  from series_apply_Inr [OF assms(1)] assms(3)
  have "anonymize_value (xs ! i) = Inr (ys ! i)"
    by (simp add: list_all2_conv_all_nth)
  moreover from series_apply_Inr [OF assms(2)] assms(4)
  have "anonymize_value (xs' ! j) = Inr (ys' ! j)"
    by (simp add: list_all2_conv_all_nth)
  ultimately show ?thesis
    using assms(5) by simp
qed

lemma series_apply_example:
  "series_apply anonymize_value [PyStr (py ''alice''), PyStr (py ''bob''), PyStr (py ''alice'')] =
     Inr [PyStr (py ''2bd806c97f0e00af1a1fc3328fa763a9269723c8db8fac4f93af71db186d6e90''),
          PyStr (py ''81b637d8fcd2c6da6359e6963113a1170de795e4b725b84d1e0b4cfd9ec58ce9''),
          PyStr (py ''2bd806c97f0e00af1a1fc3328fa763a9269723c8db8fac4f93af71db186d6e90'')]"
  by (simp add: anonymize_alice anonymize_bob)

lemma anonymize_column_Inr:
  assumes "anonymize_column key df = Inr df'"
  shows "\<exists>old hashed. map_of df key = Some old \<and>
           list_all2 (\<lambda>x y. anonymize_value x = Inr y) old hashed \<and>
           df' = map (\<lambda>(name, cells). (name, if name = key then hashed else cells)) df"
  using assms
  by (auto simp add: anonymize_column_def and_then_def getitem_def setitem_def
      split: sum.splits option.splits dest: series_apply_Inr)

lemma run_Inr:
  assumes "run w = Inr w'"
  shows "\<exists>df df1 df2.
           files w (py ''participants.csv'') = Some df \<and>
           anonymize_column (py ''workerid'') df = Inr df1 \<and>
           anonymize_column (py ''hitId'') df1 = Inr df2 \<and>
           w' = w\<lparr>files := (files w)(py ''anonymized_participants.csv'' \<mapsto> df2),
                  stdout := stdout w @
                    [py ''Anonymization completed and saved to 'anonymized_file.csv'.'']\<rparr>"
  using assms
  by (auto simp add: run_def and_then_def read_csv_def to_csv_def print_def
      split: sum.splits option.splits)

lemma run_scenario: "run scenario_world = Inr scenario_result"
  by (simp add: run_def and_then_def read_csv_def anonymize_column_def getitem_def setitem_def
      to_csv_def print_def scenario_world_def scenario_input_def scenario_output_def
      scenario_result_def py_eq_iff anonymize_alice anonymize_bob anonymize_HIT001
      anonymize_HIT002)

lemma message_names_other_file: "sublist (py ''anonymized_file.csv'')
  (py ''Anonymization completed and saved to 'anonymized_file.csv'.'')"
  by (simp add: py_def sublist_Cons_right)

lemma message_omits_output_path: "\<not> sublist (py ''anonymized_participants.csv'')
  (py ''Anonymization completed and saved to 'anonymized_file.csv'.'')"
  by (simp add: py_def sublist_Cons_right)


lemma frame_update_twice:
  "map (\<lambda>(name, cells). (name, if name = k2 then h2 else cells))
     (map (\<lambda>(name, cells). (name, if name = k1 then h1 else cells)) df) =
   map (\<lambda>(name, cells). (name, if name = k2 then h2 else if name = k1 then h1 else cells)) df"
  by (induction df) auto

lemma map_of_frame_update:
  "map_of (map (\<lambda>(name, cells). (name, g name cells)) df) key = map_option (g key) (map_of df key)"
  by (induction df) auto

lemma run_frame:
  assumes "run w = Inr w'"
  shows "\<exists>df c1 h1 c2 h2.
           files w (py ''participants.csv'') = Some df \<and>
           map_of df (py ''workerid'') = Some c1 \<and>
           list_all2 (\<lambda>x y. anonymize_value x = Inr y) c1 h1 \<and>
           map_of df (py ''hitId'') = Some c2 \<and>
           list_all2 (\<lambda>x y. anonymize_value x = Inr y) c2 h2 \<and>
           files w' = (files w)(py ''anonymized_participants.csv'' \<mapsto>
             map (\<lambda>(name, cells).
                   (name, if name = py ''hitId'' then h2
                          else if name = py ''workerid'' then h1 else cells)) df) \<and>
           stdout w' = stdout w @
             [py ''Anonymization completed and saved to 'anonymized_file.csv'.'']"
proof -
  from run_Inr [OF assms] obtain df df1 df2 where
    df: "files w (py ''participants.csv'') = Some df" and
    s1: "anonymize_column (py ''workerid'') df = Inr df1" and
    s2: "anonymize_column (py ''hitId'') df1 = Inr df2" and
    w': "w' = w\<lparr>files := (files w)(py ''anonymized_participants.csv'' \<mapsto> df2),
                 stdout := stdout w @
                   [py ''Anonymization completed and saved to 'anonymized_file.csv'.'']\<rparr>"
    by blast
  from anonymize_column_Inr [OF s1] obtain c1 h1 where
    c1: "map_of df (py ''workerid'') = Some c1" and
    h1: "list_all2 (\<lambda>x y. anonymize_value x = Inr y) c1 h1" and
    df1: "df1 = map (\<lambda>(name, cells). (name, if name = py ''workerid'' then h1 else cells)) df"
    by blast
  from anonymize_column_Inr [OF s2] obtain c2 h2 where
    c2': "map_of df1 (py ''hitId'') = Some c2" and
    h2: "list_all2 (\<lambda>x y. anonymize_value x = Inr y) c2 h2" and
    df2: "df2 = map (\<lambda>(name, cells). (name, if name = py ''hitId'' then h2 else cells)) df1"
    by blast
  have ne: "py ''hitId'' \<noteq> py ''workerid''"
    by (simp add: py_eq_iff)
  from c2' have c2: "map_of df (py ''hitId'') = Some c2"
    unfolding df1 map_of_frame_update [of "\<lambda>name cells. if name = py ''workerid'' then h1 else cells"]
    using ne by auto
  have "df2 = map (\<lambda>(name, cells).
                   (name, if name = py ''hitId'' then h2
                          else if name = py ''workerid'' then h1 else cells)) df"
    unfolding df2 df1 by (rule frame_update_twice)
  with df c1 h1 c2 h2 w' show ?thesis
    by auto
qed

text \<open>When a run ends normally: the file, the two columns, and hashable cells in both.\<close>

lemma series_apply_returns_iff:
  "(\<exists>ys. series_apply anonymize_value xs = Inr ys) \<longleftrightarrow> list_all hashable xs"
proof (induction xs)
  case Nil
  show ?case by simp
next
  case (Cons x xs)
  show ?case
  proof (cases "anonymize_value x")
    case (Inl e)
    then have "\<not> hashable x"
      using anonymize_value_returns_iff [of x] by simp
    with Inl show ?thesis by simp
  next
    case (Inr y)
    then have "hashable x"
      using anonymize_value_returns_iff [of x] by auto
    with Inr Cons.IH show ?thesis
      by (cases "series_apply anonymize_value xs") auto
  qed
qed

lemma anonymize_column_returns_iff:
  "(\<exists>df'. anonymize_column key df = Inr df') \<longleftrightarrow>
   (\<exists>cells. map_of df key = Some cells \<and> list_all hashable cells)"
proof (cases "map_of df key")
  case None
  then show ?thesis
    by (simp add: anonymize_column_def and_then_def getitem_def)
next
  case (Some cells)
  with series_apply_returns_iff [of cells] show ?thesis
    by (cases "series_apply anonymize_value cells")
      (auto simp add: anonymize_column_def and_then_def getitem_def)
qed

lemma hashed_cells_hashable:
  "list_all2 (\<lambda>x y. anonymize_value x = Inr y) c h \<Longrightarrow> list_all hashable c"
proof (induction rule: list_all2_induct)
  case Nil
  show ?case by simp
next
  case (Cons x xs y ys)
  from Cons.hyps(1) have "hashable x"
    using anonymize_value_returns_iff [of x] by auto
  with Cons.IH show ?case by simp
qed

lemma run_returns_iff:
  "(\<exists>w'. run w = Inr w') \<longleftrightarrow>
   (\<exists>df c1 c2. files w (py ''participants.csv'') = Some df \<and>
      map_of df (py ''workerid'') = Some c1 \<and> list_all hashable c1 \<and>
      map_of df (py ''hitId'') = Some c2 \<and> list_all hashable c2)"
proof
  assume "\<exists>w'. run w = Inr w'"
  then obtain w' where "run w = Inr w'" ..
  from run_frame [OF this] obtain df c1 h1 c2 h2 where
    "files w (py ''participants.csv'') = Some df" and
    c1: "map_of df (py ''workerid'') = Some c1" and
    h1: "list_all2 (\<lambda>x y. anonymize_value x = Inr y) c1 h1" and
    c2: "map_of df (py ''hitId'') = Some c2" and
    h2: "list_all2 (\<lambda>x y. anonymize_value x = Inr y) c2 h2"
    by blast
  moreover note hashed_cells_hashable
  ultimately show "\<exists>df c1 c2. files w (py ''participants.csv'') = Some df \<and>
      map_of df (py ''workerid'') = Some c1 \<and> list_all hashable c1 \<and>
      map_of df (py ''hitId'') = Some c2 \<and> list_all hashable c2"
    by blast
next
  assume "\<exists>df c1 c2. files w (py ''participants.csv'') = Some df \<and>
      map_of df (py ''workerid'') = Some c1 \<and> list_all hashable c1 \<and>
      map_of df (py ''hitId'') = Some c2 \<and> list_all hashable c2"
  then obtain df c1 c2 where
    df: "files w (py ''participants.csv'') = Some df" and
    c1: "map_of df (py ''workerid'') = Some c1" "list_all hashable c1" and
    c2: "map_of df (py ''hitId'') = Some c2" "list_all hashable c2"
    by blast
  from c1 anonymize_column_returns_iff [of "py ''workerid''" df]
  obtain df1 where s1: "anonymize_column (py ''workerid'') df = Inr df1"
    by blast
  from anonymize_column_Inr [OF s1] obtain h1 where
    df1: "df1 = map (\<lambda>(name, cells). (name, if name = py ''workerid'' then h1 else cells)) df"
    by blast
  have ne: "py ''hitId'' \<noteq> py ''workerid''"
    by (simp add: py_eq_iff)
  have "map_of df1 (py ''hitId'') = Some c2"
    unfolding df1 map_of_frame_update [of "\<lambda>name cells. if name = py ''workerid'' then h1 else cells"]
    using ne c2 by simp
  with c2 anonymize_column_returns_iff [of "py ''hitId''" df1]
  obtain df2 where s2: "anonymize_column (py ''hitId'') df1 = Inr df2"
    by blast
  from df s1 s2 show "\<exists>w'. run w = Inr w'"
    by (simp add: run_def and_then_def read_csv_def)
qed

lemma zip_header_row: "zip (header df) (row df r) = map (\<lambda>(name, cells). (name, cells ! r)) df"
  by (induction df) (auto simp add: header_def row_def)

lemma wf_map_of:
  assumes "wf_dataframe df" and "(name, cells) \<in> set df"
  shows "map_of df name = Some cells"
  using assms by (simp add: wf_dataframe_def header_def)

lemma wf_length:
  assumes "wf_dataframe df" and "(name, cells) \<in> set df"
  shows "length cells = nrows df"
  using assms by (auto simp add: wf_dataframe_def list_all_iff)

lemma scenario_input_wf: "wf_dataframe scenario_input"
  by (simp add: wf_dataframe_def header_def nrows_def scenario_input_def py_eq_iff)

lemma scenario_input_file: "files scenario_world (py ''participants.csv'') = Some scenario_input"
  by (simp add: scenario_world_def)

section \<open>Facts about the text of the files\<close>

text \<open>
  A column that \<open>infer_column\<close> accepts is rendered field by field into the canonical
  forms of its fields, the digests are rendered as they are, and so the table that a
  run writes has a text whenever the input table was parsed from one. The decimal
  numeral of the value of a numeral is that numeral exactly when it has no leading zero.
\<close>

lemma those_map_Some:
  "those (map f xs) = Some ys \<longleftrightarrow> list_all2 (\<lambda>x y. f x = Some y) xs ys"
proof (induction xs arbitrary: ys)
  case Nil
  show ?case by auto
next
  case (Cons x xs)
  show ?case
  proof (cases "f x")
    case None
    then show ?thesis by (auto simp add: list_all2_Cons1)
  next
    case (Some y)
    with Cons.IH show ?thesis
      by (cases "those (map f xs)") (auto simp add: list_all2_Cons1)
  qed
qed

lemma text_field_not_empty: "text_field f \<Longrightarrow> f \<noteq> []"
  by (auto simp add: text_field_def)

lemma text_letter_not_digit: "text_letter c \<Longrightarrow> \<not> is_digit c"
  by (auto simp add: text_letter_def is_digit_def py_def)

lemma text_field_not_int: "text_field f \<Longrightarrow> \<not> int_field f"
  by (auto simp add: text_field_def int_field_def list_all_iff list_ex_iff
      dest: text_letter_not_digit)

lemma na_field_not_int: "na_field f \<Longrightarrow> \<not> int_field f"
  by (auto simp add: na_field_def int_field_def is_digit_def py_def)

lemma text_field_not_na: "text_field f \<Longrightarrow> \<not> na_field f"
  by (auto simp add: na_field_def text_field_def text_letter_def py_def)

lemma canonical_text: "text_field f \<Longrightarrow> canonical f = f"
  by (simp add: canonical_def text_field_not_int text_field_not_na)

lemma canonical_na: "na_field f \<Longrightarrow> canonical f = []"
  by (simp add: canonical_def na_field_not_int)

lemma canonical_int: "int_field f \<Longrightarrow> canonical f = str_int (int (decimal f))"
  by (simp add: canonical_def)

lemma render_inferred:
  assumes "infer_column fs = Some cells"
  shows "those (map render_cell cells) = Some (map canonical fs)"
proof (cases "list_all int_field fs")
  case True
  with assms have "cells = map (\<lambda>f. PyInt (int (decimal f))) fs"
    by (simp add: infer_column_def)
  moreover from True have "list_all2 (\<lambda>x y. render_cell x = Some y)
      (map (\<lambda>f. PyInt (int (decimal f))) fs) (map canonical fs)"
    by (simp add: list_all2_map1 list_all2_map2 list_all2_same list_all_iff canonical_int)
  ultimately show ?thesis
    by (simp only: those_map_Some)
next
  case False
  with assms have all: "list_all (\<lambda>f. text_field f \<or> na_field f) fs"
    and cells: "cells = map (\<lambda>f. if na_field f then NaN else PyStr f) fs"
    by (auto simp add: infer_column_def split: if_splits)
  have "render_cell (if na_field f then NaN else PyStr f) = Some (canonical f)"
    if "text_field f \<or> na_field f" for f
  proof (cases "na_field f")
    case True
    then show ?thesis
      by (simp add: canonical_na NaN_def)
  next
    case False
    with that have "text_field f" by simp
    with False show ?thesis
      by (simp add: canonical_text text_field_not_empty) (simp add: text_field_def)
  qed
  with all have "list_all2 (\<lambda>x y. render_cell x = Some y)
      (map (\<lambda>f. if na_field f then NaN else PyStr f) fs) (map canonical fs)"
    by (simp add: list_all2_map1 list_all2_map2 list_all2_same list_all_iff)
  with cells show ?thesis
    by (simp only: those_map_Some)
qed

lemma hex_alnum: "c \<in> set (py ''0123456789abcdef'') \<Longrightarrow> is_alnum c"
  by (auto simp add: py_def is_alnum_def is_digit_def)

lemma render_hashed:
  assumes "anonymize_value x = Inr y"
  shows "\<exists>h. render_cell y = Some h"
proof -
  from anonymize_value_shape [OF assms] obtain h where
    "y = PyStr h" "length h = 64" "set h \<subseteq> set (py ''0123456789abcdef'')"
    by auto
  then show ?thesis
    by (auto simp add: list_all_iff dest: hex_alnum)
qed

lemma render_hashed_column:
  assumes "list_all2 (\<lambda>x y. anonymize_value x = Inr y) c h"
  shows "\<exists>fs. those (map render_cell h) = Some fs"
proof -
  have "\<exists>fs. list_all2 (\<lambda>x y. render_cell x = Some y) h fs"
    using assms
  proof (induction rule: list_all2_induct)
    case Nil
    show ?case by simp
  next
    case (Cons x xs y ys)
    from render_hashed [OF Cons.hyps(1)] Cons.IH show ?case
      by (auto simp add: list_all2_Cons1)
  qed
  then show ?thesis
    by (simp only: those_map_Some)
qed

lemma parse_csv_Some:
  assumes "parse_csv t = Some df"
  shows "list_all name_field (map fst t)"
    and "list_all2 (\<lambda>(name, fs) (name', cells). name' = name \<and> infer_column fs = Some cells) t df"
proof -
  from assms have names: "list_all name_field (map fst t)"
    and cols: "those (map (\<lambda>(name, fs). map_option (Pair name) (infer_column fs)) t) = Some df"
    by (auto simp add: parse_csv_def split: if_splits)
  from names show "list_all name_field (map fst t)" .
  from cols have "list_all2 (\<lambda>x y. (\<lambda>(name, fs). map_option (Pair name) (infer_column fs)) x = Some y) t df"
    by (simp only: those_map_Some)
  then show "list_all2 (\<lambda>(name, fs) (name', cells). name' = name \<and> infer_column fs = Some cells) t df"
    by (rule list_all2_mono) auto
qed

lemma two_columns:
  assumes "map_of df k1 = Some c1" and "map_of df k2 = Some c2" and "k1 \<noteq> k2"
  shows "2 \<le> length df"
proof (cases df)
  case Nil
  with assms show ?thesis by simp
next
  case (Cons p rest)
  with assms show ?thesis
    by (cases rest) (auto split: if_splits)
qed

lemma decimal_snoc: "decimal (f @ [c]) = 10 * decimal f + (c - 48)"
  by (simp add: decimal_def)

lemma decimal_pos:
  "list_all is_digit f \<Longrightarrow> f \<noteq> [] \<Longrightarrow> hd f \<noteq> 48 \<Longrightarrow> 0 < decimal f"
proof (induction f rule: rev_induct)
  case Nil
  then show ?case by simp
next
  case (snoc c f)
  show ?case
  proof (cases "f = []")
    case True
    with snoc.prems show ?thesis
      by (simp add: decimal_def is_digit_def)
  next
    case False
    with snoc show ?thesis
      by (simp add: decimal_snoc)
  qed
qed

lemma digits_decimal:
  "list_all is_digit f \<Longrightarrow> f \<noteq> [] \<Longrightarrow> f = [48] \<or> hd f \<noteq> 48 \<Longrightarrow> digits (decimal f) = f"
proof (induction f rule: rev_induct)
  case Nil
  then show ?case by simp
next
  case (snoc c f)
  from snoc.prems(1) have c: "48 \<le> c" "c \<le> 57"
    by (simp_all add: is_digit_def)
  show ?case
  proof (cases "f = []")
    case True
    with c show ?thesis
      by (simp add: decimal_def digits.simps)
  next
    case False
    with snoc.prems have hd: "hd f \<noteq> 48" and ds: "list_all is_digit f"
      by auto
    from decimal_pos [OF ds False hd] have pos: "0 < decimal f" .
    from snoc.IH [OF ds False] hd have IH: "digits (decimal f) = f"
      by simp
    define d where "d = c - 48"
    from c have d: "d < 10" and cd: "48 + d = c"
      by (simp_all add: d_def)
    from d have "(10 * decimal f + d) div 10 = decimal f"
      and "(10 * decimal f + d) mod 10 = d"
      by simp_all
    with pos d cd IH have "digits (10 * decimal f + d) = f @ [c]"
      by (simp add: digits.simps [of "10 * decimal f + d"])
    then show ?thesis
      by (simp add: decimal_snoc d_def)
  qed
qed

lemma digits_head: "0 < n \<Longrightarrow> digits n \<noteq> [] \<and> hd (digits n) \<noteq> 48"
proof (induction n rule: digits.induct)
  case (1 n)
  show ?case
  proof (cases "n < 10")
    case True
    with "1.prems" show ?thesis
      by (simp add: digits.simps [of n])
  next
    case False
    then have "0 < n div 10" by simp
    with "1.IH" False have "digits (n div 10) \<noteq> [] \<and> hd (digits (n div 10)) \<noteq> 48"
      by simp
    with False show ?thesis
      by (simp add: digits.simps [of n])
  qed
qed

lemma canonical_int_iff:
  assumes "int_field f"
  shows "canonical f = f \<longleftrightarrow> f = py ''0'' \<or> hd f \<noteq> 48"
proof -
  from assms have can: "canonical f = digits (decimal f)"
    by (simp add: canonical_def str_int_def)
  from assms have ds: "list_all is_digit f" and ne: "f \<noteq> []"
    by (simp_all add: int_field_def)
  have zero: "py ''0'' = [48]"
    by (simp add: py_def)
  show ?thesis
  proof
    assume same: "canonical f = f"
    show "f = py ''0'' \<or> hd f \<noteq> 48"
    proof (cases "decimal f = 0")
      case True
      with can same show ?thesis
        by (simp add: zero digits.simps [of 0])
    next
      case False
      then have "hd (digits (decimal f)) \<noteq> 48"
        using digits_head [of "decimal f"] by simp
      with can same show ?thesis by simp
    qed
  next
    assume "f = py ''0'' \<or> hd f \<noteq> 48"
    then have "f = [48] \<or> hd f \<noteq> 48"
      by (simp add: zero)
    from digits_decimal [OF ds ne this] can show "canonical f = f"
      by simp
  qed
qed

lemma rendered_frame:
  assumes parsed: "parse_csv t = Some df"
    and c1: "map_of df (py ''workerid'') = Some c1"
    and h1: "list_all2 (\<lambda>x y. anonymize_value x = Inr y) c1 h1"
    and c2: "map_of df (py ''hitId'') = Some c2"
    and h2: "list_all2 (\<lambda>x y. anonymize_value x = Inr y) c2 h2"
  shows "\<exists>r1 r2. render_csv (map (\<lambda>(name, cells).
                   (name, if name = py ''hitId'' then h2
                          else if name = py ''workerid'' then h1 else cells)) df) =
           Some (map (\<lambda>(name, fs).
                   (name, if name = py ''hitId'' then r2
                          else if name = py ''workerid'' then r1 else map canonical fs)) t)"
proof -
  from render_hashed_column [OF h1] obtain r1 where
    r1: "those (map render_cell h1) = Some r1" ..
  from render_hashed_column [OF h2] obtain r2 where
    r2: "those (map render_cell h2) = Some r2" ..
  define g where "g = (\<lambda>name cells. if name = py ''hitId'' then h2
                          else if name = py ''workerid'' then h1 else cells)"
  define G where "G = (\<lambda>name fs. if name = py ''hitId'' then r2
                          else if name = py ''workerid'' then r1 else map canonical fs)"
  define df' where "df' = map (\<lambda>(name, cells). (name, g name cells)) df"
  define t' where "t' = map (\<lambda>(name, fs). (name, G name fs)) t"
  note rel = parse_csv_Some(2) [OF parsed]
  have ne: "py ''workerid'' \<noteq> py ''hitId''"
    by (simp add: py_eq_iff)
  from two_columns [OF c1 c2 ne] have two: "2 \<le> length df'"
    by (simp add: df'_def)
  from rel have "map fst df = map fst t"
    by (induction rule: list_all2_induct) auto
  then have "map fst df' = map fst t"
    by (simp add: df'_def case_prod_beta comp_def)
  with parse_csv_Some(1) [OF parsed] have names: "list_all name_field (map fst df')"
    by simp
  from rel have "list_all2
      (\<lambda>x y. (\<lambda>(name, cells). map_option (Pair name) (those (map render_cell cells)))
               ((\<lambda>(name, cells). (name, g name cells)) y) =
             Some ((\<lambda>(name, fs). (name, G name fs)) x)) t df"
  proof (rule list_all2_mono)
    fix x :: "pystr \<times> pystr list" and y :: "pystr \<times> series"
    assume "(\<lambda>(name, fs) (name', cells). name' = name \<and> infer_column fs = Some cells) x y"
    then obtain name fs cells where x: "x = (name, fs)" and y: "y = (name, cells)"
      and inf: "infer_column fs = Some cells"
      by (cases x; cases y) auto
    from render_inferred [OF inf] r1 r2
    have "those (map render_cell (g name cells)) = Some (G name fs)"
      by (simp add: g_def G_def)
    with x y show "(\<lambda>(name, cells). map_option (Pair name) (those (map render_cell cells)))
               ((\<lambda>(name, cells). (name, g name cells)) y) =
             Some ((\<lambda>(name, fs). (name, G name fs)) x)"
      by simp
  qed
  then have "list_all2
      (\<lambda>x y. (\<lambda>(name, cells). map_option (Pair name) (those (map render_cell cells))) x = Some y)
      df' t'"
    by (simp add: df'_def t'_def list_all2_map1 list_all2_map2 list_all2_conv_all_nth)
  then have "those (map (\<lambda>(name, cells).
      map_option (Pair name) (those (map render_cell cells))) df') = Some t'"
    by (simp only: those_map_Some)
  with two names have "render_csv df' = Some t'"
    by (simp add: render_csv_def)
  then show ?thesis
    unfolding df'_def t'_def g_def G_def by blast
qed

lemma digits_decimal_example: "canonical (py ''007'') = py ''7'' \<and> canonical (py ''12'') = py ''12''"
  by (simp add: canonical_def int_field_def is_digit_def decimal_def str_int_def py_def digits.simps)

lemma parse_example: "parse_csv example_text = Some example_table"
  by (simp add: parse_csv_def example_text_def example_table_def infer_column_def
      name_field_def is_alnum_def is_digit_def int_field_def decimal_def text_field_def
      text_letter_def na_field_def py_def)

lemma run_example: "run example_world = Inr example_result"
  by (simp add: run_def and_then_def read_csv_def anonymize_column_def getitem_def setitem_def
      to_csv_def print_def example_world_def example_table_def example_output_def
      example_result_def py_eq_iff anonymize_alice anonymize_bob anonymize_HIT001
      anonymize_HIT002)

lemma render_example: "render_csv example_output = Some example_written"
  by (simp add: render_csv_def example_output_def example_written_def NaN_def
      name_field_def is_alnum_def is_digit_def str_int_def digits.simps py_def)


lemma example_file: "files example_world (py ''participants.csv'') = Some example_table"
  by (simp add: example_world_def)

lemma example_fields:
  "text_field (py ''beta'') \<and> int_field (py ''007'') \<and> na_field (py ''NA'')"
  by (simp add: text_field_def text_letter_def int_field_def na_field_def is_alnum_def
      is_digit_def decimal_def py_def)

section \<open>Properties of \<^verbatim>\<open>anonymize_value\<close>\<close>

text \<open>
  Claim C2. For every string \<open>s\<close>, \<open>anonymize_value s\<close> is the SHA-256 digest of the UTF-8
  bytes of \<open>s\<close> and of nothing else: no salt is added to the bytes and no key enters the
  hash. Where \<open>s\<close> has no UTF-8 encoding, the encoder's exception is the result. Two
  instances pin the functions down: the digest of \<^verbatim>\<open>abc\<close> is the one the standard
  publishes, and the digest of a string outside ASCII is that of its UTF-8 bytes.
\<close>

theorem anonymize_value_sha256_utf8:
  "anonymize_value (PyStr s) =
     (case utf8_encode s of
        Inl e \<Rightarrow> Inl e
      | Inr b \<Rightarrow> Inr (PyStr (hexdigest (sha256 b)))) \<and>
   anonymize_value (PyStr (py ''abc'')) =
     Inr (PyStr (py ''ba7816bf8f01cfea414140de5dae2223b00361a396177a9cb410ff61f20015ad'')) \<and>
   anonymize_value (PyStr [0xE9, 0x20AC, 0x1F600]) =
     Inr (PyStr (py ''df9226927fd572c1ee66eec85de1bb139497614899f36e4e90474cb71f6ef9d0''))"
  using anonymize_abc anonymize_non_ascii by (simp add: anonymize_value_def)

text \<open>
  Claim C3, as amended. The claim as written fails for a string that holds a surrogate
  code point: \<^verbatim>\<open>'\ud800'.encode()\<close> raises \<^verbatim>\<open>UnicodeEncodeError\<close>, so there is no
  digest. For every string with no surrogate, \<open>anonymize_value\<close> returns a string of
  exactly 64 characters, each one of \<^verbatim>\<open>0123456789abcdef\<close>.
\<close>

theorem digest_shape:
  assumes "\<not> has_surrogate s"
  shows "\<exists>h. anonymize_value (PyStr s) = Inr (PyStr h) \<and> length h = 64 \<and>
             set h \<subseteq> set (py ''0123456789abcdef'')"
proof -
  from anonymize_value_returns [OF assms]
  obtain h where h: "anonymize_value (PyStr s) = Inr (PyStr h)" ..
  from anonymize_value_shape [OF h]
  have "length h = 64 \<and> set h \<subseteq> set (py ''0123456789abcdef'')" by simp
  with h show ?thesis by blast
qed

theorem digest_shape_witness:
  "\<not> has_surrogate (py ''alice'') \<and>
   (\<exists>h. anonymize_value (PyStr (py ''alice'')) = Inr (PyStr h) \<and> length h = 64 \<and>
        set h \<subseteq> set (py ''0123456789abcdef''))"
proof -
  have ok: "\<not> has_surrogate (py ''alice'')"
    by (simp add: has_surrogate_def py_def is_surrogate_def)
  from ok digest_shape [OF ok] show ?thesis by (rule conjI)
qed

theorem digest_shape_counterexample:
  "anonymize_value (PyStr [0xD800]) = Inl UnicodeEncodeError"
  by (simp add: anonymize_value_def utf8_char_def is_surrogate_def)

text \<open>
  Claim C4. \<open>anonymize_value\<close> is deterministic: its result, digest or exception, is a
  function of the argument alone. Nothing else is read: no state of an earlier call, no
  clock, no random source, no file. So two calls on the same string give the same
  output, and equal cells get equal digests wherever they stand: at two positions of one
  column, or in the columns of two runs.
\<close>

theorem anonymize_value_deterministic:
  "(v = v' \<longrightarrow> anonymize_value v = anonymize_value v') \<and>
   (series_apply anonymize_value xs = Inr ys \<longrightarrow>
    series_apply anonymize_value xs' = Inr ys' \<longrightarrow>
    i < length xs \<longrightarrow> j < length xs' \<longrightarrow> xs ! i = xs' ! j \<longrightarrow> ys ! i = ys' ! j)"
  using series_apply_same_cell by blast

theorem anonymize_value_deterministic_witness:
  "PyStr (py ''alice'') = PyStr (py ''alice'') \<and>
   anonymize_value (PyStr (py ''alice'')) = anonymize_value (PyStr (py ''alice'')) \<and>
   series_apply anonymize_value
     [PyStr (py ''alice''), PyStr (py ''bob''), PyStr (py ''alice'')] =
     Inr [PyStr (py ''2bd806c97f0e00af1a1fc3328fa763a9269723c8db8fac4f93af71db186d6e90''),
          PyStr (py ''81b637d8fcd2c6da6359e6963113a1170de795e4b725b84d1e0b4cfd9ec58ce9''),
          PyStr (py ''2bd806c97f0e00af1a1fc3328fa763a9269723c8db8fac4f93af71db186d6e90'')] \<and>
   (0 :: nat) < length [PyStr (py ''alice''), PyStr (py ''bob''), PyStr (py ''alice'')] \<and>
   (2 :: nat) < length [PyStr (py ''alice''), PyStr (py ''bob''), PyStr (py ''alice'')] \<and>
   [PyStr (py ''alice''), PyStr (py ''bob''), PyStr (py ''alice'')] ! 0 =
     [PyStr (py ''alice''), PyStr (py ''bob''), PyStr (py ''alice'')] ! 2 \<and>
   [PyStr (py ''2bd806c97f0e00af1a1fc3328fa763a9269723c8db8fac4f93af71db186d6e90''),
    PyStr (py ''81b637d8fcd2c6da6359e6963113a1170de795e4b725b84d1e0b4cfd9ec58ce9''),
    PyStr (py ''2bd806c97f0e00af1a1fc3328fa763a9269723c8db8fac4f93af71db186d6e90'')] ! 0 =
   [PyStr (py ''2bd806c97f0e00af1a1fc3328fa763a9269723c8db8fac4f93af71db186d6e90''),
    PyStr (py ''81b637d8fcd2c6da6359e6963113a1170de795e4b725b84d1e0b4cfd9ec58ce9''),
    PyStr (py ''2bd806c97f0e00af1a1fc3328fa763a9269723c8db8fac4f93af71db186d6e90'')] ! 2"
proof -
  let ?xs = "[PyStr (py ''alice''), PyStr (py ''bob''), PyStr (py ''alice'')]"
  let ?ys = "[PyStr (py ''2bd806c97f0e00af1a1fc3328fa763a9269723c8db8fac4f93af71db186d6e90''),
    PyStr (py ''81b637d8fcd2c6da6359e6963113a1170de795e4b725b84d1e0b4cfd9ec58ce9''),
    PyStr (py ''2bd806c97f0e00af1a1fc3328fa763a9269723c8db8fac4f93af71db186d6e90'')]"
  note det = anonymize_value_deterministic
    [where v = "PyStr (py ''alice'')" and v' = "PyStr (py ''alice'')"
       and xs = ?xs and ys = ?ys and xs' = ?xs and ys' = ?ys and i = 0 and j = 2]
  have run: "series_apply anonymize_value ?xs = Inr ?ys"
    by (rule series_apply_example)
  have i: "(0 :: nat) < length ?xs" and j: "(2 :: nat) < length ?xs"
    by simp_all
  have cells: "?xs ! 0 = ?xs ! 2"
    by simp
  from det [THEN conjunct2, rule_format, OF run run i j cells]
  have tokens: "?ys ! 0 = ?ys ! 2" .
  from run i j cells tokens show ?thesis
    by (intro conjI refl)
qed

text \<open>
  Claim C8. On an argument that is not a string, \<open>anonymize_value\<close> raises: an integer, a
  float or a boolean cell has no \<^verbatim>\<open>encode\<close> method. A missing cell is the float NaN and
  gets no other treatment.
\<close>

theorem anonymize_value_non_string:
  assumes "\<not> is_str v"
  shows "anonymize_value v = Inl AttributeError"
  using assms by (cases v) (simp_all add: anonymize_value_def)

theorem anonymize_value_non_string_witness:
  "\<not> is_str NaN \<and> anonymize_value NaN = Inl AttributeError"
proof -
  have nan: "\<not> is_str NaN" by (simp add: NaN_def)
  from nan anonymize_value_non_string [OF nan] show ?thesis by (rule conjI)
qed

text \<open>
  Claim C10, as amended. The claim as written fails for a string that holds a surrogate
  code point, where \<^verbatim>\<open>value.encode()\<close> raises. \<open>anonymize_value\<close> is total on the
  strings with no surrogate, the empty string included: it returns a digest of 64
  hexadecimal characters exactly when the string holds no surrogate, it raises
  \<^verbatim>\<open>UnicodeEncodeError\<close> exactly when the string holds one, and on the empty string it
  returns the SHA-256 digest of the empty byte sequence, with no special case.
\<close>

theorem anonymize_value_total:
  "((\<exists>h. anonymize_value (PyStr s) = Inr (PyStr h) \<and> length h = 64 \<and>
         set h \<subseteq> set (py ''0123456789abcdef'')) \<longleftrightarrow> \<not> has_surrogate s) \<and>
   (anonymize_value (PyStr s) = Inl UnicodeEncodeError \<longleftrightarrow> has_surrogate s) \<and>
   anonymize_value (PyStr []) =
     Inr (PyStr (py ''e3b0c44298fc1c149afbf4c8996fb92427ae41e4649b934ca495991b7852b855''))"
proof (intro conjI)
  show "(\<exists>h. anonymize_value (PyStr s) = Inr (PyStr h) \<and> length h = 64 \<and>
         set h \<subseteq> set (py ''0123456789abcdef'')) \<longleftrightarrow> \<not> has_surrogate s"
  proof
    assume "\<exists>h. anonymize_value (PyStr s) = Inr (PyStr h) \<and> length h = 64 \<and>
         set h \<subseteq> set (py ''0123456789abcdef'')"
    then show "\<not> has_surrogate s"
      using anonymize_value_raises [of s] by auto
  next
    assume ok: "\<not> has_surrogate s"
    from anonymize_value_returns [OF ok]
    obtain h where h: "anonymize_value (PyStr s) = Inr (PyStr h)" ..
    from anonymize_value_shape [OF h] h
    show "\<exists>h. anonymize_value (PyStr s) = Inr (PyStr h) \<and> length h = 64 \<and>
         set h \<subseteq> set (py ''0123456789abcdef'')"
      by simp
  qed
  show "anonymize_value (PyStr s) = Inl UnicodeEncodeError \<longleftrightarrow> has_surrogate s"
  proof
    assume "anonymize_value (PyStr s) = Inl UnicodeEncodeError"
    then show "has_surrogate s"
      using anonymize_value_returns [of s] by (cases "has_surrogate s") auto
  next
    assume "has_surrogate s"
    then show "anonymize_value (PyStr s) = Inl UnicodeEncodeError"
      by (rule anonymize_value_raises)
  qed
  show "anonymize_value (PyStr []) =
     Inr (PyStr (py ''e3b0c44298fc1c149afbf4c8996fb92427ae41e4649b934ca495991b7852b855''))"
    by (rule anonymize_empty)
qed

theorem anonymize_value_total_witness:
  "\<not> has_surrogate (py ''HIT001'') \<and>
   (\<exists>h. anonymize_value (PyStr (py ''HIT001'')) = Inr (PyStr h) \<and> length h = 64 \<and>
        set h \<subseteq> set (py ''0123456789abcdef''))"
proof -
  have ok: "\<not> has_surrogate (py ''HIT001'')"
    by (simp add: has_surrogate_def py_def is_surrogate_def)
  from anonymize_value_total [of "py ''HIT001''", THEN conjunct1, THEN iffD2, OF ok] ok
  show ?thesis by (rule conjI [rotated])
qed

theorem anonymize_value_total_counterexample:
  "anonymize_value (PyStr (py ''bob'' @ [0xDFFF])) = Inl UnicodeEncodeError"
  by (simp add: anonymize_value_def py_def utf8_char_def is_surrogate_def)

section \<open>A second pass over hashed values\<close>

text \<open>
  A digest is a string of hexadecimal digits, so it holds no surrogate, and a second
  call hashes it as it would any other string: \<open>anonymize_value\<close> has no test for input
  that is already a digest, and the result is again a string of 64 hexadecimal digits.
  For \<^verbatim>\<open>alice\<close> the second digest differs from the first. That it differs for every
  string would mean that SHA-256, followed by the rendering in hexadecimal, has no fixed
  point among its outputs; nothing here decides that.
\<close>

lemma hex_no_surrogate:
  assumes "set h \<subseteq> set (py ''0123456789abcdef'')"
  shows "\<not> has_surrogate h"
proof -
  have "\<not> is_surrogate c" if "c \<in> set h" for c
    using that assms unfolding hexdigits by (auto simp add: is_surrogate_def)
  then show ?thesis
    by (auto simp add: has_surrogate_def list_ex_iff)
qed

lemma reanonymize_shape:
  assumes "anonymize_value v = Inr r"
  shows "\<exists>h h'. r = PyStr h \<and> anonymize_value r = Inr (PyStr h') \<and> length h' = 64 \<and>
           set h' \<subseteq> set (py ''0123456789abcdef'')"
proof -
  from anonymize_value_shape [OF assms] obtain h where
    r: "r = PyStr h" and hex: "set h \<subseteq> set (py ''0123456789abcdef'')"
    by blast
  from anonymize_value_returns [OF hex_no_surrogate [OF hex]] obtain h' where
    h': "anonymize_value (PyStr h) = Inr (PyStr h')" ..
  from anonymize_value_shape [OF h'] r h' show ?thesis
    by auto
qed

lemma reanonymize_alice:
  "anonymize_value
     (PyStr (py ''2bd806c97f0e00af1a1fc3328fa763a9269723c8db8fac4f93af71db186d6e90'')) =
   Inr (PyStr (py ''77555306307cbe22a6ee527f56c73377eebe0c6f0e649d393d917fa96fea30ed''))"
proof -
  have "utf8_encode (py ''2bd806c97f0e00af1a1fc3328fa763a9269723c8db8fac4f93af71db186d6e90'') =
      Inr (map (of_nat \<circ> of_char)
        ''2bd806c97f0e00af1a1fc3328fa763a9269723c8db8fac4f93af71db186d6e90'')"
    by (simp add: py_def utf8_char_def)
  moreover have "hexdigest (sha256 (map (of_nat \<circ> of_char)
        ''2bd806c97f0e00af1a1fc3328fa763a9269723c8db8fac4f93af71db186d6e90'')) =
      py ''77555306307cbe22a6ee527f56c73377eebe0c6f0e649d393d917fa96fea30ed''"
    apply (simp add: ev_pad)
    apply (simp only: ev_compress)
    apply (simp only: ev_lookup)
    apply (simp add: py_def)
    done
  ultimately show ?thesis
    by (simp add: anonymize_value_def)
qed

lemma reanonymize_alice_differs:
  "anonymize_value
     (PyStr (py ''2bd806c97f0e00af1a1fc3328fa763a9269723c8db8fac4f93af71db186d6e90'')) \<noteq>
   anonymize_value (PyStr (py ''alice''))"
  by (simp add: reanonymize_alice anonymize_alice py_eq_iff)

section \<open>Properties of the script\<close>

text \<open>
  Claim C1. In the end-to-end scenario the script ends normally and the output file
  holds the table with the header \<^verbatim>\<open>workerid, hitId, score\<close>, the two rows in the order
  of the input, the scores 5 and 7 unchanged, and the identifiers replaced by the SHA-256
  hexadecimal digests of \<^verbatim>\<open>alice\<close>, \<^verbatim>\<open>HIT001\<close>, \<^verbatim>\<open>bob\<close> and \<^verbatim>\<open>HIT002\<close>.
\<close>

theorem end_to_end_scenario:
  "run scenario_world = Inr scenario_result \<and>
   files scenario_result (py ''anonymized_participants.csv'') = Some scenario_output \<and>
   header scenario_output = header scenario_input \<and>
   map_of scenario_output (py ''score'') = Some [PyInt 5, PyInt 7]"
  using run_scenario
  by (simp add: scenario_result_def scenario_output_def scenario_input_def header_def py_eq_iff)

text \<open>
  Claim C5, as amended. Column isolation: after a run, the output file has the columns of
  the input file under the same names in the same order, and every column that is
  neither \<^verbatim>\<open>workerid\<close> nor \<^verbatim>\<open>hitId\<close> holds the cells that \<^verbatim>\<open>read_csv\<close> parsed from
  the input, in the same order, by position and by name. This includes a column
  \<^verbatim>\<open>assignment_id\<close>, whose transformation is commented out. As text, for every input
  text that \<open>parse_csv\<close> reads: the output has a text with the same header, and each
  field of such a column is the canonical form of the input field. A field read as a
  string is written as it stands; a field of a column of integers is written as the
  decimal numeral of its value, which is the input field exactly when that has no
  leading zero; a missing-value marker is written as the empty field.

  The claim as stated, identity byte for byte with the input for every dataset, fails:
  in the example the column \<^verbatim>\<open>assignment_id\<close> holds \<^verbatim>\<open>007\<close> and \<^verbatim>\<open>012\<close> in the input
  and \<^verbatim>\<open>7\<close> and \<^verbatim>\<open>12\<close> in the output, and the marker \<^verbatim>\<open>NA\<close> of the column
  \<^verbatim>\<open>cohort\<close> is written as the empty field.
\<close>

theorem column_isolation:
  assumes "run w = Inr w'"
  shows "\<exists>df df'.
           files w (py ''participants.csv'') = Some df \<and>
           files w' (py ''anonymized_participants.csv'') = Some df' \<and>
           header df' = header df \<and>
           (\<forall>i<length df. \<not> is_identifier (fst (df ! i)) \<longrightarrow> df' ! i = df ! i) \<and>
           (\<forall>name. \<not> is_identifier name \<longrightarrow> map_of df' name = map_of df name) \<and>
           map_of df' (py ''assignment_id'') = map_of df (py ''assignment_id'') \<and>
           (\<forall>t. parse_csv t = Some df \<longrightarrow>
              (\<exists>t'. render_csv df' = Some t' \<and>
                 map fst t' = map fst t \<and>
                 (\<forall>i<length t. \<not> is_identifier (fst (t ! i)) \<longrightarrow>
                    snd (t' ! i) = map canonical (snd (t ! i))) \<and>
                 (\<forall>name. \<not> is_identifier name \<longrightarrow>
                    map_of t' name = map_option (map canonical) (map_of t name)))) \<and>
           (\<forall>f. text_field f \<longrightarrow> canonical f = f) \<and>
           (\<forall>f. int_field f \<longrightarrow>
              canonical f = str_int (int (decimal f)) \<and>
              (canonical f = f \<longleftrightarrow> f = py ''0'' \<or> hd f \<noteq> 48)) \<and>
           (\<forall>f. na_field f \<longrightarrow> canonical f = [])"
proof -
  from run_frame [OF assms] obtain df c1 h1 c2 h2 where
    df: "files w (py ''participants.csv'') = Some df" and
    c1: "map_of df (py ''workerid'') = Some c1" and
    h1: "list_all2 (\<lambda>x y. anonymize_value x = Inr y) c1 h1" and
    c2: "map_of df (py ''hitId'') = Some c2" and
    h2: "list_all2 (\<lambda>x y. anonymize_value x = Inr y) c2 h2" and
    out: "files w' = (files w)(py ''anonymized_participants.csv'' \<mapsto>
             map (\<lambda>(name, cells).
                   (name, if name = py ''hitId'' then h2
                          else if name = py ''workerid'' then h1 else cells)) df)"
    by blast
  define g where "g = (\<lambda>name cells. if name = py ''hitId'' then h2
                          else if name = py ''workerid'' then h1 else cells)"
  define df' where "df' = map (\<lambda>(name, cells). (name, g name cells)) df"
  have written: "files w' (py ''anonymized_participants.csv'') = Some df'"
    by (simp add: out df'_def g_def)
  have hdr: "header df' = header df"
    by (simp add: header_def df'_def case_prod_beta comp_def)
  have pos: "\<forall>i<length df. \<not> is_identifier (fst (df ! i)) \<longrightarrow> df' ! i = df ! i"
    by (auto simp add: df'_def g_def is_identifier_def case_prod_beta)
  have look: "\<forall>name. \<not> is_identifier name \<longrightarrow> map_of df' name = map_of df name"
    unfolding df'_def map_of_frame_update
    by (auto simp add: g_def is_identifier_def option.map_ident)
  have "\<not> is_identifier (py ''assignment_id'')"
    by (simp add: is_identifier_def py_eq_iff)
  with look have named: "map_of df' (py ''assignment_id'') = map_of df (py ''assignment_id'')"
    by blast
  have rendering: "\<exists>t'. render_csv df' = Some t' \<and>
                 map fst t' = map fst t \<and>
                 (\<forall>i<length t. \<not> is_identifier (fst (t ! i)) \<longrightarrow>
                    snd (t' ! i) = map canonical (snd (t ! i))) \<and>
                 (\<forall>name. \<not> is_identifier name \<longrightarrow>
                    map_of t' name = map_option (map canonical) (map_of t name))"
    if parsed: "parse_csv t = Some df" for t
  proof -
    from rendered_frame [OF parsed c1 h1 c2 h2] obtain r1 r2 where
      r: "render_csv (map (\<lambda>(name, cells).
                   (name, if name = py ''hitId'' then h2
                          else if name = py ''workerid'' then h1 else cells)) df) =
           Some (map (\<lambda>(name, fs).
                   (name, if name = py ''hitId'' then r2
                          else if name = py ''workerid'' then r1 else map canonical fs)) t)"
      by blast
    define G where "G = (\<lambda>name fs. if name = py ''hitId'' then r2
                          else if name = py ''workerid'' then r1 else map canonical fs)"
    define t' where "t' = map (\<lambda>(name, fs). (name, G name fs)) t"
    from r have rendered: "render_csv df' = Some t'"
      by (simp add: df'_def t'_def g_def G_def)
    have names: "map fst t' = map fst t"
      by (simp add: t'_def case_prod_beta comp_def)
    have tpos: "\<forall>i<length t. \<not> is_identifier (fst (t ! i)) \<longrightarrow>
                    snd (t' ! i) = map canonical (snd (t ! i))"
      by (auto simp add: t'_def G_def is_identifier_def case_prod_beta)
    have tlook: "\<forall>name. \<not> is_identifier name \<longrightarrow>
                    map_of t' name = map_option (map canonical) (map_of t name)"
      unfolding t'_def map_of_frame_update
      by (auto simp add: G_def is_identifier_def)
    from rendered names tpos tlook show ?thesis
      by blast
  qed
  have can: "(\<forall>f. text_field f \<longrightarrow> canonical f = f) \<and>
           (\<forall>f. int_field f \<longrightarrow>
              canonical f = str_int (int (decimal f)) \<and>
              (canonical f = f \<longleftrightarrow> f = py ''0'' \<or> hd f \<noteq> 48)) \<and>
           (\<forall>f. na_field f \<longrightarrow> canonical f = [])"
    using canonical_text canonical_int canonical_int_iff canonical_na by blast
  from df written hdr pos look named rendering can show ?thesis
    by blast
qed

theorem column_isolation_witness:
  "run example_world = Inr example_result \<and>
   parse_csv example_text = Some example_table \<and>
   files example_world (py ''participants.csv'') = Some example_table \<and>
   text_field (py ''beta'') \<and>
   int_field (py ''007'') \<and>
   na_field (py ''NA'') \<and>
   (\<exists>df df'.
      files example_world (py ''participants.csv'') = Some df \<and>
      files example_result (py ''anonymized_participants.csv'') = Some df' \<and>
      header df' = header df \<and>
      (\<forall>i<length df. \<not> is_identifier (fst (df ! i)) \<longrightarrow> df' ! i = df ! i) \<and>
      (\<forall>name. \<not> is_identifier name \<longrightarrow> map_of df' name = map_of df name) \<and>
      map_of df' (py ''assignment_id'') = map_of df (py ''assignment_id'') \<and>
      (\<forall>t. parse_csv t = Some df \<longrightarrow>
         (\<exists>t'. render_csv df' = Some t' \<and>
            map fst t' = map fst t \<and>
            (\<forall>i<length t. \<not> is_identifier (fst (t ! i)) \<longrightarrow>
               snd (t' ! i) = map canonical (snd (t ! i))) \<and>
            (\<forall>name. \<not> is_identifier name \<longrightarrow>
               map_of t' name = map_option (map canonical) (map_of t name)))) \<and>
      (\<forall>f. text_field f \<longrightarrow> canonical f = f) \<and>
      (\<forall>f. int_field f \<longrightarrow>
         canonical f = str_int (int (decimal f)) \<and>
         (canonical f = f \<longleftrightarrow> f = py ''0'' \<or> hd f \<noteq> 48)) \<and>
      (\<forall>f. na_field f \<longrightarrow> canonical f = []))"
  by (rule conjI [OF run_example conjI [OF parse_example conjI [OF example_file
      conjI [OF example_fields [THEN conjunct1]
      conjI [OF example_fields [THEN conjunct2, THEN conjunct1]
      conjI [OF example_fields [THEN conjunct2, THEN conjunct2]
      column_isolation [OF run_example]]]]]]])

theorem column_isolation_counterexample:
  "parse_csv example_text = Some example_table \<and>
   files example_world (py ''participants.csv'') = Some example_table \<and>
   run example_world = Inr example_result \<and>
   files example_result (py ''anonymized_participants.csv'') = Some example_output \<and>
   render_csv example_output = Some example_written \<and>
   map_of example_text (py ''assignment_id'') = Some [py ''007'', py ''012''] \<and>
   map_of example_written (py ''assignment_id'') = Some [py ''7'', py ''12''] \<and>
   map_of example_text (py ''cohort'') = Some [py ''NA'', py ''beta''] \<and>
   map_of example_written (py ''cohort'') = Some [[], py ''beta''] \<and>
   py ''007'' \<noteq> py ''7'' \<and> py ''NA'' \<noteq> []"
  using parse_example example_file run_example render_example
  by (simp add: example_result_def example_text_def example_written_def py_eq_iff)
    (simp add: py_def)

text \<open>
  Claim C6. After a run on a table as \<^verbatim>\<open>read_csv\<close> returns it, the output file holds a
  table with the same header in the same order and no further column (so no column of
  row numbers), the same number of rows, and the rows in the same order: row \<open>r\<close> of the
  output is row \<open>r\<close> of the input with the two identifier cells replaced by their
  digests.
\<close>

theorem rows_preserved:
  assumes "run w = Inr w'"
    and "files w (py ''participants.csv'') = Some df"
    and "wf_dataframe df"
  shows "\<exists>df'.
           files w' (py ''anonymized_participants.csv'') = Some df' \<and>
           header df' = header df \<and>
           nrows df' = nrows df \<and>
           wf_dataframe df' \<and>
           (\<forall>r<nrows df.
              list_all2
                (\<lambda>(name, old) new.
                   if is_identifier name then anonymize_value old = Inr new else new = old)
                (zip (header df) (row df r)) (row df' r))"
proof -
  from run_frame [OF assms(1)] assms(2) obtain c1 h1 c2 h2 where
    c1: "map_of df (py ''workerid'') = Some c1" and
    h1: "list_all2 (\<lambda>x y. anonymize_value x = Inr y) c1 h1" and
    c2: "map_of df (py ''hitId'') = Some c2" and
    h2: "list_all2 (\<lambda>x y. anonymize_value x = Inr y) c2 h2" and
    out: "files w' = (files w)(py ''anonymized_participants.csv'' \<mapsto>
             map (\<lambda>(name, cells).
                   (name, if name = py ''hitId'' then h2
                          else if name = py ''workerid'' then h1 else cells)) df)"
    by auto
  define g where "g = (\<lambda>name cells. if name = py ''hitId'' then h2
                          else if name = py ''workerid'' then h1 else cells)"
  define df' where "df' = map (\<lambda>(name, cells). (name, g name cells)) df"
  have written: "files w' (py ''anonymized_participants.csv'') = Some df'"
    by (simp add: out df'_def g_def)
  have hdr: "header df' = header df"
    by (simp add: header_def df'_def case_prod_beta comp_def)
  have cell: "length (g name cells) = length cells \<and>
      (\<forall>r<length cells.
         if is_identifier name then anonymize_value (cells ! r) = Inr (g name cells ! r)
         else g name cells ! r = cells ! r)"
    if "(name, cells) \<in> set df" for name cells
  proof -
    from wf_map_of [OF assms(3) that] have look: "map_of df name = Some cells" .
    show ?thesis
    proof (cases "name = py ''hitId''")
      case True
      with look c2 have "cells = c2" by simp
      with True h2 show ?thesis
        by (auto simp add: g_def is_identifier_def list_all2_conv_all_nth)
    next
      case False
      show ?thesis
      proof (cases "name = py ''workerid''")
        case True
        with look c1 have "cells = c1" by simp
        with True False h1 show ?thesis
          by (auto simp add: g_def is_identifier_def list_all2_conv_all_nth)
      next
        case other: False
        with False show ?thesis
          by (simp add: g_def is_identifier_def)
      qed
    qed
  qed
  have n: "nrows df' = nrows df"
  proof (cases df)
    case Nil
    then show ?thesis by (simp add: df'_def)
  next
    case (Cons p rest)
    obtain name cells where p: "p = (name, cells)" by (cases p)
    with Cons have "(name, cells) \<in> set df" by simp
    from cell [OF this] Cons p show ?thesis
      by (simp add: df'_def nrows_def)
  qed
  have wf: "wf_dataframe df'"
    unfolding wf_dataframe_def hdr n
    using assms(3) cell wf_length [OF assms(3)]
    by (auto simp add: wf_dataframe_def df'_def list_all_iff)
  have rows: "list_all2
        (\<lambda>(name, old) new.
           if is_identifier name then anonymize_value old = Inr new else new = old)
        (zip (header df) (row df r)) (row df' r)" if "r < nrows df" for r
    unfolding zip_header_row
    using cell that wf_length [OF assms(3)]
    by (auto simp add: row_def df'_def list_all2_map1 list_all2_map2 list_all2_same)
  from written hdr n wf rows show ?thesis
    by blast
qed

theorem rows_preserved_witness:
  "run scenario_world = Inr scenario_result \<and>
   files scenario_world (py ''participants.csv'') = Some scenario_input \<and>
   wf_dataframe scenario_input \<and>
   (\<exists>df'.
      files scenario_result (py ''anonymized_participants.csv'') = Some df' \<and>
      header df' = header scenario_input \<and>
      nrows df' = nrows scenario_input \<and>
      wf_dataframe df' \<and>
      (\<forall>r<nrows scenario_input.
         list_all2
           (\<lambda>(name, old) new.
              if is_identifier name then anonymize_value old = Inr new else new = old)
           (zip (header scenario_input) (row scenario_input r)) (row df' r)))"
  using run_scenario scenario_input_file scenario_input_wf
    rows_preserved [OF run_scenario scenario_input_file scenario_input_wf]
  by (intro conjI)

text \<open>
  Claim C9. A successful run prints exactly one line, the fixed completion message, and
  writes exactly one file, \<^verbatim>\<open>anonymized_participants.csv\<close>. The message names
  \<^verbatim>\<open>anonymized_file.csv\<close>, a file the run does not touch, and does not name the file
  written.
\<close>

theorem completion_message:
  assumes "run w = Inr w'"
  shows "stdout w' = stdout w @
           [py ''Anonymization completed and saved to 'anonymized_file.csv'.''] \<and>
         (\<exists>df'. files w' = (files w)(py ''anonymized_participants.csv'' \<mapsto> df')) \<and>
         files w' (py ''anonymized_file.csv'') = files w (py ''anonymized_file.csv'') \<and>
         sublist (py ''anonymized_file.csv'')
           (py ''Anonymization completed and saved to 'anonymized_file.csv'.'') \<and>
         \<not> sublist (py ''anonymized_participants.csv'')
           (py ''Anonymization completed and saved to 'anonymized_file.csv'.'')"
proof -
  from run_frame [OF assms] obtain df' where
    out: "files w' = (files w)(py ''anonymized_participants.csv'' \<mapsto> df')" and
    printed: "stdout w' = stdout w @
      [py ''Anonymization completed and saved to 'anonymized_file.csv'.'']"
    by blast
  have "py ''anonymized_file.csv'' \<noteq> py ''anonymized_participants.csv''"
    by (simp add: py_eq_iff)
  with out have "files w' (py ''anonymized_file.csv'') = files w (py ''anonymized_file.csv'')"
    by simp
  with out printed message_names_other_file message_omits_output_path show ?thesis
    by blast
qed

theorem completion_message_witness:
  "run scenario_world = Inr scenario_result \<and>
   stdout scenario_result = stdout scenario_world @
     [py ''Anonymization completed and saved to 'anonymized_file.csv'.''] \<and>
   (\<exists>df'. files scenario_result =
      (files scenario_world)(py ''anonymized_participants.csv'' \<mapsto> df')) \<and>
   files scenario_result (py ''anonymized_file.csv'') =
     files scenario_world (py ''anonymized_file.csv'') \<and>
   sublist (py ''anonymized_file.csv'')
     (py ''Anonymization completed and saved to 'anonymized_file.csv'.'') \<and>
   \<not> sublist (py ''anonymized_participants.csv'')
     (py ''Anonymization completed and saved to 'anonymized_file.csv'.'')"
  by (rule conjI [OF run_scenario completion_message [OF run_scenario]])

end
